theory Spec2Isabelle
  imports Complex_Main "HOL-Library.Word" "HOL-Library.Sublist"
begin

section \<open>The task board page: state, storage and JSON\<close>

text \<open>
  The repository is one React component, \<^verbatim>\<open>Home\<close> in \<^verbatim>\<open>src/app/page.js\<close>. It keeps three
  pieces of component state (\<^verbatim>\<open>tasks\<close>, \<^verbatim>\<open>newTask\<close>, \<^verbatim>\<open>nextId\<close>), mirrors the task array to
  the \<^verbatim>\<open>localStorage\<close> item \<^verbatim>\<open>'tasks'\<close>, and has three pieces of behaviour: the hydration effect
  that runs once after mounting, \<^verbatim>\<open>addTask\<close> and \<^verbatim>\<open>handleDelete\<close>.

  Modelling decisions.
  \<^item> A JavaScript string is a sequence of 16-bit code units: \<open>16 word list\<close>.
  \<^item> A task id and the counter are JavaScript Numbers, that is IEEE 754 doubles. The model
    covers the Numbers that are integers and writes them as \<open>int\<close>. Every integer of magnitude
    up to \<open>2 ^ 53\<close> is a double; a sum that is not a double is rounded to the nearest one, ties
    to the even significand (\<open>round_double\<close>), so \<^verbatim>\<open>nextId+1\<close> at \<open>2 ^ 53\<close> is \<open>2 ^ 53\<close>
    again. Numbers that are not integers, NaN and the infinities are outside the model.
  \<^item> A number token read by \<^verbatim>\<open>JSON.parse\<close> carries the exact rational its literal denotes;
    the Number the engine makes of it is that rational rounded to a double. The page looks at
    a parsed number in two places and both account for the rounding: its truth value (it is
    falsy when it rounds to zero) and its use as an id (taken over when it is an integer of
    magnitude up to \<open>2 ^ 53\<close>, which is the double itself).
  \<^item> A stored text is covered when it is not valid JSON, when it is a value other than an
    array, or when it is an array of \<^verbatim>\<open>null\<close>s and of objects with exactly the properties
    \<^verbatim>\<open>id\<close>, \<^verbatim>\<open>title\<close>, \<^verbatim>\<open>description\<close> in the order in which \<^verbatim>\<open>addTask\<close> writes them, the id
    such an integer. On any other array the effect goes through JavaScript's conversions of
    arbitrary values to numbers; the model then answers \<open>Unmodelled\<close> and no theorem
    speaks about it.
  \<^item> \<^verbatim>\<open>localStorage\<close> is available and never full; only its item \<^verbatim>\<open>'tasks'\<close> is modelled.
  \<^item> Every event handler runs to completion on the state of the latest render, so a handler
    is a function from page state to page state; \<^verbatim>\<open>console.log\<close> is left out.
  \<^item> An exception that leaves the hydration effect is a result of its own (\<open>Threw\<close>): nothing
    in the component catches it.
\<close>

subsection \<open>Strings\<close>

type_synonym ustring = "16 word list"

definition ustr :: "string \<Rightarrow> ustring" where
  "ustr s = map of_char s"

subsection \<open>Tasks and page state\<close>

text \<open>The object literal \<^verbatim>\<open>{id, title, description}\<close> built by \<^verbatim>\<open>addTask\<close>.\<close>

record task =
  task_id :: int
  title :: ustring
  description :: ustring

text \<open>
  The three \<^verbatim>\<open>useState\<close> cells of \<^verbatim>\<open>Home\<close> and the \<^verbatim>\<open>localStorage\<close> item \<^verbatim>\<open>'tasks'\<close>
  (\<open>None\<close> when the key is not there, so that \<^verbatim>\<open>getItem\<close> returns \<^verbatim>\<open>null\<close>).
\<close>

record page =
  tasks :: "task list"
  newTask :: ustring
  nextId :: int
  storage :: "ustring option"

subsection \<open>Number arithmetic on integers\<close>

text \<open>
  The double nearest to an integer. An integer of magnitude up to \<open>2 ^ 53\<close> is a double.
  A larger one has more than 53 significant bits: \<open>excess_bits\<close> counts the bits beyond 53,
  these low bits are dropped and the rest is rounded to the nearest multiple, a tie going to
  the even significand. (The result is finite: the page only adds 1 to a finite double.)
\<close>

function excess_bits :: "int \<Rightarrow> nat" where
  "excess_bits a = (if a < 2 ^ 53 then 0 else Suc (excess_bits (a div 2)))"
  by pat_completeness auto
termination
  by (relation "measure nat") auto

definition round_double :: "int \<Rightarrow> int" where
  "round_double n =
     (if \<bar>n\<bar> \<le> 2 ^ 53 then n
      else
        (let e = excess_bits \<bar>n\<bar>;
             q = \<bar>n\<bar> div 2 ^ e;
             r = \<bar>n\<bar> mod 2 ^ e;
             m = (if 2 * r < 2 ^ e \<or> (2 * r = 2 ^ e \<and> even q) then q else q + 1)
         in sgn n * (m * 2 ^ e)))"

subsection \<open>JSON.stringify on an array of tasks\<close>

text \<open>
  \<^verbatim>\<open>JSON.stringify\<close>, \<^verbatim>\<open>JSON.parse\<close> and \<^verbatim>\<open>localStorage\<close> belong to the platform, not to the
  repository. They are written out here after the ECMAScript definition of the JSON object
  (QuoteJSONString, SerializeJSONObject, SerializeJSONArray, and the JSON grammar that
  \<^verbatim>\<open>JSON.parse\<close> accepts), as far as the page uses them: \<^verbatim>\<open>JSON.stringify\<close> on an array of
  task objects, \<^verbatim>\<open>JSON.parse\<close> on any string.
\<close>

text \<open>
  Number::toString on an integer: decimal digits, with a minus sign below zero. These are the
  characters the engine writes for an integer of magnitude below \<open>10 ^ 21\<close>; from there on it
  writes exponent notation, which is not modelled, and no theorem on reading a text back
  speaks about such ids.
\<close>

function digits :: "nat \<Rightarrow> ustring" where
  "digits n = (if n < 10 then [0x30 + of_nat n] else digits (n div 10) @ [0x30 + of_nat (n mod 10)])"
  by pat_completeness auto
termination
  by (relation "measure (\<lambda>n. n)") auto

definition Number_toString :: "int \<Rightarrow> ustring" where
  "Number_toString n = (if n < 0 then 0x2D # digits (nat (- n)) else digits (nat n))"

text \<open>
  QuoteJSONString. The two-character escapes, \<^verbatim>\<open>\uXXXX\<close> (lower-case hexadecimal) for the
  other control characters and for a surrogate that has no partner, everything else as it is.
\<close>

definition hex_digit :: "nat \<Rightarrow> 16 word" where
  "hex_digit d = (if d < 10 then 0x30 + of_nat d else 0x57 + of_nat d)"

definition UnicodeEscape :: "16 word \<Rightarrow> ustring" where
  "UnicodeEscape c =
     [0x5C, 0x75, hex_digit (unat c div 4096), hex_digit (unat c div 256 mod 16),
      hex_digit (unat c div 16 mod 16), hex_digit (unat c mod 16)]"

definition is_leading_surrogate :: "16 word \<Rightarrow> bool" where
  "is_leading_surrogate c \<longleftrightarrow> 0xD800 \<le> c \<and> c \<le> 0xDBFF"

definition is_trailing_surrogate :: "16 word \<Rightarrow> bool" where
  "is_trailing_surrogate c \<longleftrightarrow> 0xDC00 \<le> c \<and> c \<le> 0xDFFF"

definition quote_unit :: "16 word \<Rightarrow> ustring" where
  "quote_unit c =
     (if c = 0x08 then [0x5C, 0x62]
      else if c = 0x09 then [0x5C, 0x74]
      else if c = 0x0A then [0x5C, 0x6E]
      else if c = 0x0C then [0x5C, 0x66]
      else if c = 0x0D then [0x5C, 0x72]
      else if c = 0x22 then [0x5C, 0x22]
      else if c = 0x5C then [0x5C, 0x5C]
      else if c < 0x20 \<or> is_leading_surrogate c \<or> is_trailing_surrogate c then UnicodeEscape c
      else [c])"

fun quote_units :: "ustring \<Rightarrow> ustring" where
  "quote_units [] = []"
| "quote_units [c] = quote_unit c"
| "quote_units (c # d # cs) =
     (if is_leading_surrogate c \<and> is_trailing_surrogate d then c # d # quote_units cs
      else quote_unit c @ quote_units (d # cs))"

definition QuoteJSONString :: "ustring \<Rightarrow> ustring" where
  "QuoteJSONString s = 0x22 # quote_units s @ [0x22]"

text \<open>
  SerializeJSONObject on a task: its own properties in creation order, no white space
  (\<^verbatim>\<open>JSON.stringify\<close> is called without an indent argument).
\<close>

definition stringify_task :: "task \<Rightarrow> ustring" where
  \<open>stringify_task t =
     ustr ''{"id":'' @ Number_toString (task_id t) @
     ustr '',"title":'' @ QuoteJSONString (title t) @
     ustr '',"description":'' @ QuoteJSONString (description t) @ ustr ''}''\<close>

fun join_comma :: "ustring list \<Rightarrow> ustring" where
  "join_comma [] = []"
| "join_comma [x] = x"
| "join_comma (x # y # ys) = x @ 0x2C # join_comma (y # ys)"

definition JSON_stringify :: "task list \<Rightarrow> ustring" where
  "JSON_stringify ts = 0x5B # join_comma (map stringify_task ts) @ [0x5D]"

subsection \<open>JSON.parse\<close>

text \<open>
  The values \<^verbatim>\<open>JSON.parse\<close> returns. An object is the list of its members as they stand in
  the text. The text is first cut into tokens and the tokens are then read by the grammar.
\<close>

datatype json =
    JNull
  | JBool bool
  | JNum rat
  | JStr ustring
  | JArr "json list"
  | JObj "(ustring \<times> json) list"

datatype token =
    LBracket | RBracket | LBrace | RBrace | Comma | Colon
  | TString ustring | TNumber rat | TTrue | TFalse | TNull

definition is_ws :: "16 word \<Rightarrow> bool" where
  "is_ws c \<longleftrightarrow> c = 0x20 \<or> c = 0x09 \<or> c = 0x0A \<or> c = 0x0D"

definition is_digit :: "16 word \<Rightarrow> bool" where
  "is_digit c \<longleftrightarrow> 0x30 \<le> c \<and> c \<le> 0x39"

definition digits_val :: "ustring \<Rightarrow> nat" where
  "digits_val ds = foldl (\<lambda>a c. a * 10 + (unat c - 0x30)) 0 ds"

definition hex_val :: "16 word \<Rightarrow> nat option" where
  "hex_val c =
     (if 0x30 \<le> c \<and> c \<le> 0x39 then Some (unat c - 0x30)
      else if 0x41 \<le> c \<and> c \<le> 0x46 then Some (unat c - 0x37)
      else if 0x61 \<le> c \<and> c \<le> 0x66 then Some (unat c - 0x57)
      else None)"

definition hex4 :: "16 word \<Rightarrow> 16 word \<Rightarrow> 16 word \<Rightarrow> 16 word \<Rightarrow> 16 word option" where
  "hex4 a b c d =
     (case hex_val a of None \<Rightarrow> None | Some w \<Rightarrow>
       (case hex_val b of None \<Rightarrow> None | Some x \<Rightarrow>
         (case hex_val c of None \<Rightarrow> None | Some y \<Rightarrow>
           (case hex_val d of None \<Rightarrow> None | Some z \<Rightarrow>
              Some (of_nat (((w * 16 + x) * 16 + y) * 16 + z))))))"

definition escape_char :: "16 word \<Rightarrow> 16 word option" where
  "escape_char e =
     (if e = 0x22 then Some 0x22
      else if e = 0x5C then Some 0x5C
      else if e = 0x2F then Some 0x2F
      else if e = 0x62 then Some 0x08
      else if e = 0x66 then Some 0x0C
      else if e = 0x6E then Some 0x0A
      else if e = 0x72 then Some 0x0D
      else if e = 0x74 then Some 0x09
      else None)"

text \<open>
  The characters of a JSON string after its opening quote, up to and including the
  closing quote: the string's value and the rest of the input.
\<close>

fun lex_string :: "ustring \<Rightarrow> (ustring \<times> ustring) option" where
  "lex_string [] = None"
| "lex_string (c # cs) =
     (if c = 0x22 then Some ([], cs)
      else if c = 0x5C then
        (case cs of
           [] \<Rightarrow> None
         | e # r \<Rightarrow>
             if e = 0x75 then
               (case r of
                  h1 # h2 # h3 # h4 # r' \<Rightarrow>
                    (case hex4 h1 h2 h3 h4 of
                       None \<Rightarrow> None
                     | Some u \<Rightarrow> map_option (\<lambda>(s, t). (u # s, t)) (lex_string r'))
                | _ \<Rightarrow> None)
             else
               (case escape_char e of
                  None \<Rightarrow> None
                | Some u \<Rightarrow> map_option (\<lambda>(s, t). (u # s, t)) (lex_string r)))
      else if c < 0x20 then None
      else map_option (\<lambda>(s, t). (c # s, t)) (lex_string cs))"

text \<open>
  A JSON number: optional minus, integer part without a leading zero, optional fraction,
  optional exponent. The value is the rational the literal denotes.
\<close>

definition scale10 :: "rat \<Rightarrow> int \<Rightarrow> rat" where
  "scale10 x e = (if 0 \<le> e then x * 10 ^ nat e else x / 10 ^ nat (- e))"

definition lex_frac :: "ustring \<Rightarrow> (ustring \<times> ustring) option" where
  "lex_frac cs =
     (case cs of
        [] \<Rightarrow> Some ([], cs)
      | c # r \<Rightarrow>
          if c = 0x2E then
            (if takeWhile is_digit r = [] then None
             else Some (takeWhile is_digit r, dropWhile is_digit r))
          else Some ([], cs))"

definition lex_sign :: "ustring \<Rightarrow> int \<times> ustring" where
  "lex_sign cs =
     (case cs of
        [] \<Rightarrow> (1, cs)
      | c # r \<Rightarrow> if c = 0x2B then (1, r) else if c = 0x2D then (- 1, r) else (1, cs))"

definition lex_exp :: "ustring \<Rightarrow> (int \<times> ustring) option" where
  "lex_exp cs =
     (case cs of
        [] \<Rightarrow> Some (0, cs)
      | c # r \<Rightarrow>
          if c = 0x65 \<or> c = 0x45 then
            (case lex_sign r of (sg, r1) \<Rightarrow>
               if takeWhile is_digit r1 = [] then None
               else Some (sg * int (digits_val (takeWhile is_digit r1)), dropWhile is_digit r1))
          else Some (0, cs))"

definition lex_number :: "ustring \<Rightarrow> (rat \<times> ustring) option" where
  "lex_number cs =
     (case (case cs of [] \<Rightarrow> (1, cs) | c # r \<Rightarrow> if c = 0x2D then (- 1, r) else (1, cs)) of
        (sg, cs1) \<Rightarrow>
          let ip = takeWhile is_digit cs1 in
          if ip = [] \<or> (hd ip = 0x30 \<and> tl ip \<noteq> []) then None
          else
            (case lex_frac (dropWhile is_digit cs1) of
               None \<Rightarrow> None
             | Some (fp, cs3) \<Rightarrow>
                 (case lex_exp cs3 of
                    None \<Rightarrow> None
                  | Some (e, cs4) \<Rightarrow>
                      Some (scale10 (sg * of_nat (digits_val (ip @ fp))) (e - int (length fp)),
                            cs4))))"

text \<open>The token sequence of a text; \<open>None\<close> when some character starts no token.\<close>

function lex :: "ustring \<Rightarrow> token list option" where
  "lex [] = Some []"
| "lex (c # cs) =
     (if is_ws c then lex cs
      else if c = 0x5B then map_option (Cons LBracket) (lex cs)
      else if c = 0x5D then map_option (Cons RBracket) (lex cs)
      else if c = 0x7B then map_option (Cons LBrace) (lex cs)
      else if c = 0x7D then map_option (Cons RBrace) (lex cs)
      else if c = 0x2C then map_option (Cons Comma) (lex cs)
      else if c = 0x3A then map_option (Cons Colon) (lex cs)
      else if c = 0x22 then
        (case lex_string cs of
           None \<Rightarrow> None
         | Some (s, r) \<Rightarrow> map_option (Cons (TString s)) (lex r))
      else if c = 0x2D \<or> is_digit c then
        (case lex_number (c # cs) of
           None \<Rightarrow> None
         | Some (x, r) \<Rightarrow> map_option (Cons (TNumber x)) (lex r))
      else if take 4 (c # cs) = ustr ''true'' then map_option (Cons TTrue) (lex (drop 3 cs))
      else if take 5 (c # cs) = ustr ''false'' then map_option (Cons TFalse) (lex (drop 4 cs))
      else if take 4 (c # cs) = ustr ''null'' then map_option (Cons TNull) (lex (drop 3 cs))
      else None)"
  by pat_completeness auto
termination
proof -
  have str: "length r \<le> length cs" if "lex_string cs = Some (s, r)" for cs s r
    using that
  proof (induction cs arbitrary: s rule: lex_string.induct)
    case 1
    then show ?case by simp
  next
    case (2 c cs)
    then show ?case
      by (fastforce split: if_splits list.splits option.splits)
  qed
  have frac: "length r \<le> length cs" if "lex_frac cs = Some (f, r)" for cs f r
    using that length_dropWhile_le [of is_digit "tl cs"]
    by (auto simp: lex_frac_def split: list.splits if_splits)
  have sign: "length (snd (lex_sign cs)) \<le> length cs" for cs
    by (auto simp: lex_sign_def split: list.splits)
  have exp: "length r \<le> length cs" if "lex_exp cs = Some (e, r)" for cs e r
  proof (cases cs)
    case Nil
    with that show ?thesis by (simp add: lex_exp_def)
  next
    case (Cons c t)
    show ?thesis
    proof (cases "c = 0x65 \<or> c = 0x45")
      case True
      with that Cons have "r = dropWhile is_digit (snd (lex_sign t))"
        by (auto simp: lex_exp_def split: prod.splits if_splits)
      then have "length r \<le> length (snd (lex_sign t))"
        by (simp add: length_dropWhile_le)
      with sign [of t] Cons show ?thesis by simp
    next
      case False
      with that Cons show ?thesis by (auto simp: lex_exp_def)
    qed
  qed
  have num: "length r < length cs" if "lex_number cs = Some (x, r)" for cs x r
  proof -
    obtain sg cs1 where s: "(case cs of [] \<Rightarrow> (1::rat, cs) | c # r \<Rightarrow> if c = 0x2D then (- 1, r) else (1, cs)) = (sg, cs1)"
      by (cases "(case cs of [] \<Rightarrow> (1::rat, cs) | c # r \<Rightarrow> if c = 0x2D then (- 1, r) else (1, cs))")
    then have l1: "length cs1 \<le> length cs"
      by (auto split: list.splits if_splits)
    from that s have ne: "takeWhile is_digit cs1 \<noteq> []"
      by (auto simp: lex_number_def Let_def split: if_splits)
    then have l2: "length (dropWhile is_digit cs1) < length cs1"
      by (metis append_self_conv2 length_append length_greater_0_conv less_add_same_cancel2
          takeWhile_dropWhile_id)
    from that s ne obtain fp cs3 e where
      f: "lex_frac (dropWhile is_digit cs1) = Some (fp, cs3)" and e: "lex_exp cs3 = Some (e, r)"
      by (auto simp: lex_number_def Let_def split: if_splits option.splits)
    from frac [OF f] exp [OF e] l1 l2 show ?thesis by simp
  qed
  show ?thesis
    by (relation "measure length") (auto dest: str num)
qed

text \<open>
  The grammar on tokens. An array is \<open>[ ]\<close> or \<open>[ value (, value)* ]\<close>, an object is
  \<open>{ }\<close> or \<open>{ string : value (, string : value)* }\<close>. Each function returns what it read and
  the tokens after it. The comparison of lengths after a value has been read is always true
  (lemma \<open>parse_value_shorter\<close> below); it is what makes the recursion well-founded.
  An object keeps its members in the order of the text.
\<close>

function parse_value :: "token list \<Rightarrow> (json \<times> token list) option"
  and parse_elements :: "token list \<Rightarrow> (json list \<times> token list) option"
  and parse_members :: "token list \<Rightarrow> ((ustring \<times> json) list \<times> token list) option"
where
  "parse_value [] = None"
| "parse_value (t # ts) =
     (case t of
        TNull \<Rightarrow> Some (JNull, ts)
      | TTrue \<Rightarrow> Some (JBool True, ts)
      | TFalse \<Rightarrow> Some (JBool False, ts)
      | TNumber x \<Rightarrow> Some (JNum x, ts)
      | TString s \<Rightarrow> Some (JStr s, ts)
      | LBracket \<Rightarrow>
          (case ts of
             RBracket # r \<Rightarrow> Some (JArr [], r)
           | _ \<Rightarrow> map_option (\<lambda>(vs, r). (JArr vs, r)) (parse_elements ts))
      | LBrace \<Rightarrow>
          (case ts of
             RBrace # r \<Rightarrow> Some (JObj [], r)
           | _ \<Rightarrow> map_option (\<lambda>(ms, r). (JObj ms, r)) (parse_members ts))
      | _ \<Rightarrow> None)"
| "parse_elements ts =
     (case parse_value ts of
        None \<Rightarrow> None
      | Some (v, r) \<Rightarrow>
          if length r < length ts then
            (case r of
               Comma # r' \<Rightarrow> map_option (\<lambda>(vs, r''). (v # vs, r'')) (parse_elements r')
             | RBracket # r' \<Rightarrow> Some ([v], r')
             | _ \<Rightarrow> None)
          else None)"
| "parse_members ts =
     (case ts of
        TString k # Colon # ts' \<Rightarrow>
          (case parse_value ts' of
             None \<Rightarrow> None
           | Some (v, r) \<Rightarrow>
               if length r < length ts' then
                 (case r of
                    Comma # r' \<Rightarrow> map_option (\<lambda>(ms, r''). ((k, v) # ms, r'')) (parse_members r')
                  | RBrace # r' \<Rightarrow> Some ([(k, v)], r')
                  | _ \<Rightarrow> None)
               else None)
      | _ \<Rightarrow> None)"
  by pat_completeness auto
termination
  by (relation "measure (\<lambda>x. case x of Inl ts \<Rightarrow> 2 * length ts + 1
                                   | Inr (Inl ts) \<Rightarrow> 2 * length ts + 2
                                   | Inr (Inr ts) \<Rightarrow> 2 * length ts + 2)") auto

datatype js_error = SyntaxError | TypeError

text \<open>\<^verbatim>\<open>JSON.parse(text)\<close>: one value, then nothing but white space; a SyntaxError otherwise.\<close>

definition JSON_parse :: "ustring \<Rightarrow> js_error + json" where
  "JSON_parse text =
     (case lex text of
        None \<Rightarrow> Inl SyntaxError
      | Some toks \<Rightarrow>
          (case parse_value toks of
             Some (v, []) \<Rightarrow> Inr v
           | _ \<Rightarrow> Inl SyntaxError))"

subsection \<open>The hydration effect\<close>

text \<open>
  The result of running the effect: it ran to its end and left a page state, it threw, or the
  stored text is valid JSON of a shape on which the code goes through JavaScript's
  conversions of arbitrary values to numbers, which this development does not cover
  (\<open>Unmodelled\<close>: nothing is claimed there).
\<close>

datatype 'a outcome = Done 'a | Threw js_error | Unmodelled

text \<open>
  ToBoolean on the values \<^verbatim>\<open>JSON.parse\<close> can return, as used by \<^verbatim>\<open>||\<close>. A number is falsy
  when it is zero as a double: the literal's value rounds to zero, which it does up to half
  of the smallest positive double \<open>2 ^ -1074\<close> (the tie goes to zero).
\<close>

definition falsy :: "json \<Rightarrow> bool" where
  "falsy v =
     (case v of
        JNull \<Rightarrow> True
      | JBool b \<Rightarrow> \<not> b
      | JNum x \<Rightarrow> \<bar>x\<bar> \<le> 1 / 2 ^ 1075
      | JStr s \<Rightarrow> s = []
      | JArr vs \<Rightarrow> False
      | JObj ms \<Rightarrow> False)"

text \<open>
  A parsed object seen as a task: exactly the properties \<^verbatim>\<open>id\<close>, \<^verbatim>\<open>title\<close>, \<^verbatim>\<open>description\<close>,
  in this order, two strings and an id whose literal denotes an integer of magnitude up to
  \<open>2 ^ 53\<close> (so that the Number the engine reads is that integer).
\<close>

definition get_num :: "json \<Rightarrow> rat option" where
  "get_num v = (case v of JNum x \<Rightarrow> Some x | _ \<Rightarrow> None)"

definition get_str :: "json \<Rightarrow> ustring option" where
  "get_str v = (case v of JStr s \<Rightarrow> Some s | _ \<Rightarrow> None)"

definition task_of_json :: "json \<Rightarrow> task option" where
  "task_of_json v =
     (case v of
        JObj ms \<Rightarrow>
          if map fst ms = [ustr ''id'', ustr ''title'', ustr ''description''] then
            (case get_num (snd (ms ! 0)) of
               None \<Rightarrow> None
             | Some x \<Rightarrow>
                 (case get_str (snd (ms ! 1)) of
                    None \<Rightarrow> None
                  | Some t \<Rightarrow>
                      (case get_str (snd (ms ! 2)) of
                         None \<Rightarrow> None
                       | Some d \<Rightarrow>
                           if of_int \<lfloor>x\<rfloor> = x \<and> \<bar>x\<bar> \<le> 2 ^ 53
                           then Some \<lparr>task_id = \<lfloor>x\<rfloor>, title = t, description = d\<rparr>
                           else None)))
          else None
      | _ \<Rightarrow> None)"

text \<open>
  The elements of the parsed array, in the order in which \<^verbatim>\<open>reduce\<close> visits them: reading
  \<^verbatim>\<open>task.id\<close> of \<^verbatim>\<open>null\<close> throws a TypeError; an element that is not a task as above leaves
  the scope of the model.
\<close>

fun saved_tasks :: "json list \<Rightarrow> task list outcome" where
  "saved_tasks [] = Done []"
| "saved_tasks (v # vs) =
     (if v = JNull then Threw TypeError
      else
        (case task_of_json v of
           None \<Rightarrow> Unmodelled
         | Some t \<Rightarrow>
             (case saved_tasks vs of
                Done ts \<Rightarrow> Done (t # ts)
              | Threw e \<Rightarrow> Threw e
              | Unmodelled \<Rightarrow> Unmodelled)))"

text \<open>\<^verbatim>\<open>savedTasks.reduce((max,task)=>Math.max(max,task.id),0)\<close>\<close>

definition maxId :: "task list \<Rightarrow> int" where
  "maxId savedTasks = foldl (\<lambda>mx task. max mx (task_id task)) 0 savedTasks"

text \<open>
  The effect of \<^verbatim>\<open>Home\<close>, run once after the first render:
  \<^verbatim>\<open>
  const savedTasks=JSON.parse(localStorage.getItem('tasks'))||[];
  setTasks(savedTasks);
  const maxId=savedTasks.reduce((max,task)=>Math.max(max,task.id),0);
  setNextId(maxId+1);
  \<close>
  \<^verbatim>\<open>localStorage.getItem('tasks')\<close> is the stored string or \<^verbatim>\<open>null\<close>, and \<^verbatim>\<open>JSON.parse\<close>
  converts its argument to a string first, so \<^verbatim>\<open>null\<close> is parsed as the text \<^verbatim>\<open>null\<close>.
  A SyntaxError of \<^verbatim>\<open>JSON.parse\<close> leaves the effect: there is no handler. A falsy result is
  replaced by \<^verbatim>\<open>[]\<close>; \<^verbatim>\<open>reduce\<close> exists on arrays only, so calling it on any other value
  throws a TypeError. \<^verbatim>\<open>Math.max\<close> of two integers is exact, \<^verbatim>\<open>maxId+1\<close> is an addition of
  doubles.
\<close>

definition getItem_text :: "ustring option \<Rightarrow> ustring" where
  "getItem_text item = (case item of None \<Rightarrow> ustr ''null'' | Some s \<Rightarrow> s)"

definition initialize :: "page \<Rightarrow> page outcome" where
  "initialize p =
     (case JSON_parse (getItem_text (storage p)) of
        Inl e \<Rightarrow> Threw e
      | Inr v \<Rightarrow>
          (case (if falsy v then JArr [] else v) of
             JArr vs \<Rightarrow>
               (case saved_tasks vs of
                  Done savedTasks \<Rightarrow>
                    Done (p\<lparr>tasks := savedTasks,
                            nextId := round_double (maxId savedTasks + 1)\<rparr>)
                | Threw e \<Rightarrow> Threw e
                | Unmodelled \<Rightarrow> Unmodelled)
           | _ \<Rightarrow> Threw TypeError))"

text \<open>The state of the first render: the initial values given to \<^verbatim>\<open>useState\<close>.\<close>

definition Home :: "ustring option \<Rightarrow> page" where
  "Home item = \<lparr>tasks = [], newTask = [], nextId = 1, storage = item\<rparr>"

subsection \<open>The event handlers\<close>

text \<open>\<^verbatim>\<open>onChange={(e)=>setNewTask(e.target.value)}\<close>\<close>

definition setNewTask :: "ustring \<Rightarrow> page \<Rightarrow> page" where
  "setNewTask v p = p\<lparr>newTask := v\<rparr>"

text \<open>
  \<^verbatim>\<open>addTask\<close> builds the object \<^verbatim>\<open>{id:nextId, title:newTask, description:''}\<close>, sets the task
  array to \<^verbatim>\<open>[...tasks,newTaskObj]\<close>, clears the input, sets the counter to \<^verbatim>\<open>nextId+1\<close> (an
  addition of doubles) and writes the serialized new array to the storage item.
\<close>

definition addTask :: "page \<Rightarrow> page" where
  "addTask p =
     (let newTaskObj = \<lparr>task_id = nextId p, title = newTask p, description = []\<rparr>;
          updatedTasks = tasks p @ [newTaskObj]
      in p\<lparr>tasks := updatedTasks, newTask := [], nextId := round_double (nextId p + 1),
           storage := Some (JSON_stringify updatedTasks)\<rparr>)"

text \<open>
  \<^verbatim>\<open>handleDelete\<close> sets the task array to \<^verbatim>\<open>tasks.filter((task)=>task.id!==id)\<close> and writes
  its serialization to the storage item.
\<close>

definition handleDelete :: "int \<Rightarrow> page \<Rightarrow> page" where
  "handleDelete i p =
     (let newTasks = filter (\<lambda>task. task_id task \<noteq> i) (tasks p)
      in p\<lparr>tasks := newTasks, storage := Some (JSON_stringify newTasks)\<rparr>)"

subsection \<open>Runs of the page\<close>




text \<open>Typing a title and pressing Add, once for each title of a list.\<close>

definition add_titles :: "ustring list \<Rightarrow> page \<Rightarrow> page" where
  "add_titles ss p = foldl (\<lambda>q s. addTask (setNewTask s q)) p ss"

subsection \<open>Properties of a page state\<close>

text \<open>The storage item holds the serialization of the task array in memory.\<close>

definition mirrored :: "page \<Rightarrow> bool" where
  "mirrored p \<longleftrightarrow> storage p = Some (JSON_stringify (tasks p))"


subsection \<open>What the serialization of a task array is read back as\<close>

text \<open>
  The tokens of a serialized task and of a serialized task array without its brackets, and
  the value \<^verbatim>\<open>JSON.parse\<close> builds from a serialized task. They are used to state the lemmas
  on reading back what \<^verbatim>\<open>JSON.stringify\<close> wrote.
\<close>

definition task_json :: "task \<Rightarrow> json" where
  "task_json t =
     JObj [(ustr ''id'', JNum (of_int (task_id t))),
           (ustr ''title'', JStr (title t)),
           (ustr ''description'', JStr (description t))]"

definition task_tokens :: "task \<Rightarrow> token list" where
  "task_tokens t =
     [LBrace, TString (ustr ''id''), Colon, TNumber (of_int (task_id t)), Comma,
      TString (ustr ''title''), Colon, TString (title t), Comma,
      TString (ustr ''description''), Colon, TString (description t), RBrace]"

fun tasks_tokens :: "task list \<Rightarrow> token list" where
  "tasks_tokens [] = []"
| "tasks_tokens [t] = task_tokens t"
| "tasks_tokens (t # u # us) = task_tokens t @ Comma # tasks_tokens (u # us)"

section \<open>Lemmas\<close>

declare digits.simps [simp del] parse_elements.simps [simp del] parse_members.simps [simp del]

subsection \<open>The parser's length comparison is redundant\<close>

lemma parse_elements_shorter:
  "parse_elements ts = Some (vs, r) \<Longrightarrow> length r < length ts"
proof (induction "length ts" arbitrary: ts vs r rule: less_induct)
  case less
  from less.prems obtain v r1 where g: "length r1 < length ts"
    and rest: "(case r1 of
                  Comma # r' \<Rightarrow> map_option (\<lambda>(vs, r''). (v # vs, r'')) (parse_elements r')
                | RBracket # r' \<Rightarrow> Some ([v], r')
                | _ \<Rightarrow> None) = Some (vs, r)"
    by (subst (asm) parse_elements.simps) (auto split: option.splits if_splits)
  show ?case
  proof (cases r1)
    case Nil
    with rest show ?thesis by simp
  next
    case (Cons x r2)
    show ?thesis
    proof (cases "x = Comma")
      case True
      with rest Cons obtain vs' where "parse_elements r2 = Some (vs', r)"
        by auto
      moreover have "length r2 < length ts" using g Cons by simp
      ultimately have "length r < length r2" by (rule less.hyps [rotated])
      with g Cons show ?thesis by simp
    next
      case False
      with rest Cons have "x = RBracket \<and> r = r2"
        by (cases x) auto
      with g Cons show ?thesis by simp
    qed
  qed
qed

lemma parse_members_shorter:
  "parse_members ts = Some (ms, r) \<Longrightarrow> length r < length ts"
proof (induction "length ts" arbitrary: ts ms r rule: less_induct)
  case less
  from less.prems obtain k ts' where ts: "ts = TString k # Colon # ts'"
    by (subst (asm) parse_members.simps) (auto split: list.splits token.splits)
  with less.prems obtain v r1 where g: "length r1 < length ts'"
    and rest: "(case r1 of
                  Comma # r' \<Rightarrow> map_option (\<lambda>(ms, r''). ((k, v) # ms, r'')) (parse_members r')
                | RBrace # r' \<Rightarrow> Some ([(k, v)], r')
                | _ \<Rightarrow> None) = Some (ms, r)"
    by (subst (asm) parse_members.simps) (auto split: option.splits if_splits)
  show ?case
  proof (cases r1)
    case Nil
    with rest show ?thesis by simp
  next
    case (Cons x r2)
    show ?thesis
    proof (cases "x = Comma")
      case True
      with rest Cons obtain ms' where "parse_members r2 = Some (ms', r)"
        by auto
      moreover have "length r2 < length ts" using g Cons ts by simp
      ultimately have "length r < length r2" by (rule less.hyps [rotated])
      with g Cons ts show ?thesis by simp
    next
      case False
      with rest Cons have "x = RBrace \<and> r = r2"
        by (cases x) auto
      with g Cons ts show ?thesis by simp
    qed
  qed
qed

lemma parse_value_shorter:
  "parse_value ts = Some (v, r) \<Longrightarrow> length r < length ts"
proof (cases ts)
  case Nil
  then show "parse_value ts = Some (v, r) \<Longrightarrow> ?thesis" by simp
next
  case (Cons t ts')
  assume pv: "parse_value ts = Some (v, r)"
  show ?thesis
  proof (cases t)
    case LBracket
    show ?thesis
    proof (cases "\<exists>r'. ts' = RBracket # r'")
      case True
      with pv Cons LBracket show ?thesis by auto
    next
      case False
      with pv Cons LBracket obtain vs where "parse_elements ts' = Some (vs, r)"
        by (auto split: list.splits token.splits)
      then have "length r < length ts'" by (rule parse_elements_shorter)
      with Cons show ?thesis by simp
    qed
  next
    case LBrace
    show ?thesis
    proof (cases "\<exists>r'. ts' = RBrace # r'")
      case True
      with pv Cons LBrace show ?thesis by auto
    next
      case False
      with pv Cons LBrace obtain ms where "parse_members ts' = Some (ms, r)"
        by (auto split: list.splits token.splits)
      then have "length r < length ts'" by (rule parse_members_shorter)
      with Cons show ?thesis by simp
    qed
  qed (use pv Cons in auto)
qed

subsection \<open>Numbers are read back\<close>

lemma unat_digit: "d < 10 \<Longrightarrow> unat (0x30 + of_nat d :: 16 word) = 48 + d"
  by (simp add: unat_word_ariths unat_of_nat)

lemma is_digit_digit: "d < 10 \<Longrightarrow> is_digit (0x30 + of_nat d)"
  by (simp add: is_digit_def word_le_nat_alt unat_digit)

lemma digit_zero: "d < 10 \<Longrightarrow> (0x30 + of_nat d :: 16 word) = 0x30 \<Longrightarrow> d = 0"
proof -
  assume d: "d < 10" and "(0x30 + of_nat d :: 16 word) = 0x30"
  then have "unat (0x30 + of_nat d :: 16 word) = unat (0x30 :: 16 word)" by simp
  with d show "d = 0" by (simp add: unat_digit)
qed

lemma digits_nonempty: "digits n \<noteq> []"
  by (subst digits.simps) simp

lemma digits_all_digit: "c \<in> set (digits n) \<Longrightarrow> is_digit c"
proof (induction n arbitrary: c rule: digits.induct)
  case (1 n)
  show ?case
  proof (cases "n < 10")
    case True
    with "1.prems" show ?thesis
      by (subst (asm) digits.simps) (simp add: is_digit_digit)
  next
    case False
    with "1.prems" have "c \<in> set (digits (n div 10)) \<or> c = 0x30 + of_nat (n mod 10)"
      by (subst (asm) digits.simps) auto
    with False "1.IH" show ?thesis
      by (auto simp: is_digit_digit)
  qed
qed

lemma digits_val_snoc: "digits_val (ds @ [c]) = digits_val ds * 10 + (unat c - 0x30)"
  by (simp add: digits_val_def)

lemma digits_val_digits: "digits_val (digits n) = n"
proof (induction n rule: digits.induct)
  case (1 n)
  show ?case
  proof (cases "n < 10")
    case True
    then show ?thesis
      by (subst digits.simps) (simp add: digits_val_def unat_digit)
  next
    case False
    with "1.IH" show ?thesis
      by (subst digits.simps) (simp add: digits_val_snoc unat_digit)
  qed
qed

lemma digits_leading_zero: "hd (digits n) = 0x30 \<Longrightarrow> n = 0"
proof (induction n rule: digits.induct)
  case (1 n)
  show ?case
  proof (cases "n < 10")
    case True
    with "1.prems" show ?thesis
      by (subst (asm) digits.simps) (simp add: digit_zero)
  next
    case False
    with "1.prems" have "hd (digits (n div 10)) = 0x30"
      by (subst (asm) digits.simps) (simp add: digits_nonempty)
    with False "1.IH" have "n div 10 = 0" by simp
    with False show ?thesis by simp
  qed
qed

lemma digits_0: "digits 0 = [0x30]"
  by (subst digits.simps) simp

lemma not_digit_comma: "\<not> is_digit 0x2C"
  by (simp add: is_digit_def)

lemma takeWhile_digits: "takeWhile is_digit (digits n @ 0x2C # r) = digits n"
  by (simp add: takeWhile_append2 digits_all_digit not_digit_comma)

lemma dropWhile_digits: "dropWhile is_digit (digits n @ 0x2C # r) = 0x2C # r"
  by (simp add: dropWhile_append2 digits_all_digit not_digit_comma)

lemma hd_digits_not_minus: "hd (digits n) \<noteq> 0x2D"
proof -
  have "hd (digits n) \<in> set (digits n)" by (simp add: digits_nonempty)
  then have "is_digit (hd (digits n))" by (rule digits_all_digit)
  then show ?thesis by (auto simp: is_digit_def)
qed

lemma lex_number_digits:
  "lex_number (digits n @ 0x2C # r) = Some (of_nat n, 0x2C # r)"
proof -
  obtain c cs where dc: "digits n = c # cs"
    using digits_nonempty [of n] by (cases "digits n") auto
  have c: "c \<noteq> 0x2D" using hd_digits_not_minus [of n] dc by simp
  have lz: "\<not> (hd (digits n) = 0x30 \<and> tl (digits n) \<noteq> [])"
    using digits_leading_zero [of n] digits_0 by auto
  have tw: "takeWhile is_digit (c # cs @ 0x2C # r) = digits n"
    using takeWhile_digits [of n r] dc by simp
  have dw: "dropWhile is_digit (c # cs @ 0x2C # r) = 0x2C # r"
    using dropWhile_digits [of n r] dc by simp
  show ?thesis
    unfolding lex_number_def dc
    using c lz
    by (simp add: tw dw Let_def digits_nonempty lex_frac_def lex_exp_def scale10_def
        digits_val_digits del: takeWhile.simps dropWhile.simps)
qed

lemma lex_number_minus_digits:
  "lex_number (0x2D # digits n @ 0x2C # r) = Some (- of_nat n, 0x2C # r)"
proof -
  have lz: "\<not> (hd (digits n) = 0x30 \<and> tl (digits n) \<noteq> [])"
    using digits_leading_zero [of n] digits_0 by auto
  show ?thesis
    unfolding lex_number_def
    using lz
    by (simp add: takeWhile_digits dropWhile_digits Let_def digits_nonempty lex_frac_def
        lex_exp_def scale10_def digits_val_digits)
qed

lemma lex_number_toString:
  "lex_number (Number_toString n @ 0x2C # r) = Some (of_int n, 0x2C # r)"
proof (cases "n < 0")
  case True
  then have "(of_int n :: rat) = - of_nat (nat (- n))" by simp
  with True show ?thesis
    by (simp add: Number_toString_def lex_number_minus_digits del: of_nat_nat)
next
  case False
  then have "(of_int n :: rat) = of_nat (nat n)" by simp
  with False show ?thesis
    by (simp add: Number_toString_def lex_number_digits del: of_nat_nat)
qed

subsection \<open>Strings are read back\<close>

lemma hex_positions:
  fixes n :: nat
  shows "((n div 4096 * 16 + n div 256 mod 16) * 16 + n div 16 mod 16) * 16 + n mod 16 = n"
proof -
  have a: "n div 256 = n div 16 div 16" and b: "n div 4096 = n div 16 div 16 div 16"
    by (simp_all add: div_mult2_eq)
  show ?thesis unfolding a b by (simp only: div_mult_mod_eq)
qed
lemma unat_hex_high: "d < 16 \<Longrightarrow> unat (0x57 + of_nat d :: 16 word) = 87 + d"
  by (simp add: unat_word_ariths unat_of_nat)
lemma hex_val_hex_digit: "d < 16 \<Longrightarrow> hex_val (hex_digit d) = Some d"
proof (cases "d < 10")
  case True
  then show ?thesis
    by (simp add: hex_val_def hex_digit_def word_le_nat_alt unat_digit)
next
  case False
  assume "d < 16"
  with False show ?thesis
    by (simp add: hex_val_def hex_digit_def word_le_nat_alt unat_hex_high)
qed

lemma hex4_UnicodeEscape:
  "hex4 (hex_digit (unat c div 4096)) (hex_digit (unat c div 256 mod 16))
        (hex_digit (unat c div 16 mod 16)) (hex_digit (unat c mod 16)) = Some c"
proof -
  have "unat c < 65536" using unsigned_less [of c] by simp
  then have "unat c div 4096 < 16" by simp
  then have "hex_val (hex_digit (unat c div 4096)) = Some (unat c div 4096)"
    and "hex_val (hex_digit (unat c div 256 mod 16)) = Some (unat c div 256 mod 16)"
    and "hex_val (hex_digit (unat c div 16 mod 16)) = Some (unat c div 16 mod 16)"
    and "hex_val (hex_digit (unat c mod 16)) = Some (unat c mod 16)"
    by (simp_all add: hex_val_hex_digit)
  then show ?thesis
    unfolding hex4_def by (simp only: option.case hex_positions of_nat_unat unsigned_word_eqI) simp
qed

lemma lex_string_escape2:
  "e \<noteq> 0x75 \<Longrightarrow> escape_char e = Some u \<Longrightarrow>
   lex_string (0x5C # e # rest) = map_option (\<lambda>(s, t). (u # s, t)) (lex_string rest)"
  by simp

lemma lex_string_UnicodeEscape:
  "lex_string (UnicodeEscape c @ rest) = map_option (\<lambda>(s, t). (c # s, t)) (lex_string rest)"
  by (simp add: UnicodeEscape_def hex4_UnicodeEscape)

lemma lex_string_literal:
  "c \<noteq> 0x22 \<Longrightarrow> c \<noteq> 0x5C \<Longrightarrow> \<not> c < 0x20 \<Longrightarrow>
   lex_string (c # rest) = map_option (\<lambda>(s, t). (c # s, t)) (lex_string rest)"
  by simp

lemma lex_string_quote_unit:
  "lex_string (quote_unit c @ rest) = map_option (\<lambda>(s, t). (c # s, t)) (lex_string rest)"
proof -
  consider "c = 0x08" | "c = 0x09" | "c = 0x0A" | "c = 0x0C" | "c = 0x0D" | "c = 0x22" | "c = 0x5C"
    | "c \<notin> {0x08, 0x09, 0x0A, 0x0C, 0x0D, 0x22, 0x5C}"
        "c < 0x20 \<or> is_leading_surrogate c \<or> is_trailing_surrogate c"
    | "c \<notin> {0x08, 0x09, 0x0A, 0x0C, 0x0D, 0x22, 0x5C}"
        "\<not> (c < 0x20 \<or> is_leading_surrogate c \<or> is_trailing_surrogate c)"
    by blast
  then show ?thesis
  proof cases
    case 8
    then have "quote_unit c = UnicodeEscape c" by (simp add: quote_unit_def)
    then show ?thesis by (simp only: lex_string_UnicodeEscape)
  next
    case 9
    then have "quote_unit c = [c]" by (simp add: quote_unit_def)
    with 9 show ?thesis by (simp add: lex_string_literal del: lex_string.simps)
  qed (simp_all add: quote_unit_def escape_char_def)
qed

lemma surrogate_literal:
  assumes "is_leading_surrogate c \<or> is_trailing_surrogate c"
  shows "c \<noteq> 0x22" "c \<noteq> 0x5C" "\<not> c < 0x20"
  using assms
  by (auto simp: is_leading_surrogate_def is_trailing_surrogate_def word_le_nat_alt
      word_less_nat_alt)

lemma lex_string_quote_units:
  "lex_string (quote_units s @ 0x22 # rest) = Some (s, rest)"
proof (induction s rule: quote_units.induct)
  case 1
  show ?case by simp
next
  case (2 c)
  have "lex_string (quote_unit c @ 0x22 # rest) = Some ([c], rest)"
    by (simp only: lex_string_quote_unit) simp
  then show ?case by simp
next
  case (3 c d cs)
  show ?case
  proof (cases "is_leading_surrogate c \<and> is_trailing_surrogate d")
    case True
    then have "lex_string (c # d # quote_units cs @ 0x22 # rest) =
               map_option (\<lambda>(s, t). (c # d # s, t)) (lex_string (quote_units cs @ 0x22 # rest))"
      using surrogate_literal [of c] surrogate_literal [of d]
      by (simp add: lex_string_literal option.map_comp comp_def split_def
          del: lex_string.simps)
    with True "3.IH"(1) show ?thesis by simp
  next
    case False
    have "quote_units (c # d # cs) = quote_unit c @ quote_units (d # cs)"
      by (subst quote_units.simps, subst if_not_P [OF False], rule refl)
    then have "lex_string (quote_units (c # d # cs) @ 0x22 # rest) =
               map_option (\<lambda>(s, t). (c # s, t)) (lex_string (quote_units (d # cs) @ 0x22 # rest))"
      by (simp only: lex_string_quote_unit append_assoc)
    with False "3.IH"(2) show ?thesis by simp
  qed
qed

subsection \<open>A serialized task array is read back\<close>

lemma lex_punct:
  "lex (0x5B # cs) = map_option (Cons LBracket) (lex cs)"
  "lex (0x5D # cs) = map_option (Cons RBracket) (lex cs)"
  "lex (0x7B # cs) = map_option (Cons LBrace) (lex cs)"
  "lex (0x7D # cs) = map_option (Cons RBrace) (lex cs)"
  "lex (0x2C # cs) = map_option (Cons Comma) (lex cs)"
  "lex (0x3A # cs) = map_option (Cons Colon) (lex cs)"
  by (simp_all add: is_ws_def)

lemma lex_QuoteJSONString:
  "lex (QuoteJSONString s @ rest) = map_option (Cons (TString s)) (lex rest)"
  by (simp add: QuoteJSONString_def is_ws_def lex_string_quote_units del: lex_string.simps)

lemma Number_toString_first:
  "\<exists>c cs. Number_toString n = c # cs \<and> (c = 0x2D \<or> is_digit c)"
proof (cases "n < 0")
  case True
  then show ?thesis by (simp add: Number_toString_def)
next
  case False
  obtain c cs where dc: "digits (nat n) = c # cs"
    using digits_nonempty [of "nat n"] by (cases "digits (nat n)") auto
  then have "c \<in> set (digits (nat n))" by simp
  then have "is_digit c" by (rule digits_all_digit)
  with False dc show ?thesis by (simp add: Number_toString_def)
qed

lemma lex_number_start:
  assumes "c = 0x2D \<or> is_digit c"
  shows "lex (c # cs) =
         (case lex_number (c # cs) of
            None \<Rightarrow> None
          | Some (x, r) \<Rightarrow> map_option (Cons (TNumber x)) (lex r))"
proof -
  from assms have "\<not> is_ws c" "c \<noteq> 0x5B" "c \<noteq> 0x5D" "c \<noteq> 0x7B" "c \<noteq> 0x7D" "c \<noteq> 0x2C"
    "c \<noteq> 0x3A" "c \<noteq> 0x22"
    by (auto simp: is_ws_def is_digit_def)
  with assms show ?thesis by simp
qed

lemma lex_Number_toString:
  "lex (Number_toString n @ 0x2C # r) = map_option (Cons (TNumber (of_int n))) (lex (0x2C # r))"
proof -
  obtain c cs where nc: "Number_toString n = c # cs" and c: "c = 0x2D \<or> is_digit c"
    using Number_toString_first by blast
  have "lex (c # cs @ 0x2C # r) =
        (case lex_number (c # cs @ 0x2C # r) of
           None \<Rightarrow> None
         | Some (x, r) \<Rightarrow> map_option (Cons (TNumber x)) (lex r))"
    by (rule lex_number_start [OF c])
  moreover have "lex_number (c # cs @ 0x2C # r) = Some (of_int n, 0x2C # r)"
    using lex_number_toString [of n r] nc by simp
  ultimately show ?thesis
    using nc by (simp del: lex.simps)
qed

lemma stringify_task_unfold:
  "stringify_task t @ rest =
     0x7B # QuoteJSONString (ustr ''id'') @ 0x3A # Number_toString (task_id t) @
     0x2C # QuoteJSONString (ustr ''title'') @ 0x3A # QuoteJSONString (title t) @
     0x2C # QuoteJSONString (ustr ''description'') @ 0x3A # QuoteJSONString (description t) @
     0x7D # rest"
  by (simp add: stringify_task_def QuoteJSONString_def ustr_def quote_unit_def
      is_leading_surrogate_def is_trailing_surrogate_def)

lemma lex_stringify_task:
  "lex (stringify_task t @ rest) = map_option ((@) (task_tokens t)) (lex rest)"
proof -
  have "lex (stringify_task t @ rest) =
        map_option (Cons LBrace) (map_option (Cons (TString (ustr ''id'')))
          (map_option (Cons Colon) (map_option (Cons (TNumber (of_int (task_id t))))
            (map_option (Cons Comma) (map_option (Cons (TString (ustr ''title'')))
              (map_option (Cons Colon) (map_option (Cons (TString (title t)))
                (map_option (Cons Comma) (map_option (Cons (TString (ustr ''description'')))
                  (map_option (Cons Colon) (map_option (Cons (TString (description t)))
                    (map_option (Cons RBrace) (lex rest)))))))))))))"
    by (simp only: stringify_task_unfold lex_punct lex_QuoteJSONString lex_Number_toString)
  then show ?thesis
    by (cases "lex rest") (simp_all add: task_tokens_def)
qed

lemma lex_join_comma:
  "lex (join_comma (map stringify_task ts) @ rest) = map_option ((@) (tasks_tokens ts)) (lex rest)"
proof (induction ts rule: tasks_tokens.induct)
  case 1
  show ?case by (simp add: option.map_ident_strong)
next
  case (2 t)
  show ?case by (simp add: lex_stringify_task del: lex.simps)
next
  case (3 t u us)
  have "lex (join_comma (map stringify_task (t # u # us)) @ rest) =
        lex (stringify_task t @ 0x2C # join_comma (map stringify_task (u # us)) @ rest)"
    by simp
  also have "\<dots> = map_option ((@) (task_tokens t))
                     (map_option (Cons Comma) (lex (join_comma (map stringify_task (u # us)) @ rest)))"
    by (simp only: lex_stringify_task lex_punct)
  also have "\<dots> = map_option ((@) (tasks_tokens (t # u # us))) (lex rest)"
    by (simp only: "3.IH") (cases "lex rest"; simp)
  finally show ?case .
qed

lemma lex_JSON_stringify:
  "lex (JSON_stringify ts) = Some (LBracket # tasks_tokens ts @ [RBracket])"
proof -
  have "lex (JSON_stringify ts) =
        map_option (Cons LBracket) (lex (join_comma (map stringify_task ts) @ [0x5D]))"
    by (simp only: JSON_stringify_def lex_punct)
  also have "\<dots> = map_option (Cons LBracket) (map_option ((@) (tasks_tokens ts)) (lex [0x5D]))"
    by (simp only: lex_join_comma)
  also have "\<dots> = Some (LBracket # tasks_tokens ts @ [RBracket])"
    by (simp add: is_ws_def)
  finally show ?thesis .
qed

lemma parse_value_task_tokens:
  "parse_value (task_tokens t @ rest) = Some (task_json t, rest)"
  by (simp add: task_tokens_def task_json_def parse_members.simps)

lemma task_tokens_nonempty: "task_tokens t \<noteq> []"
  by (simp add: task_tokens_def)

lemma parse_elements_tasks_tokens:
  "ts \<noteq> [] \<Longrightarrow> parse_elements (tasks_tokens ts @ RBracket # rest) = Some (map task_json ts, rest)"
proof (induction ts rule: tasks_tokens.induct)
  case 1
  then show ?case by simp
next
  case (2 t)
  show ?case
    by (subst parse_elements.simps)
       (simp add: parse_value_task_tokens task_tokens_nonempty del: parse_value.simps)
next
  case (3 t u us)
  have "parse_elements (tasks_tokens (u # us) @ RBracket # rest) = Some (map task_json (u # us), rest)"
    using "3.IH" by simp
  then show ?case
    by (subst parse_elements.simps)
       (simp add: parse_value_task_tokens task_tokens_nonempty del: parse_value.simps)
qed

lemma tasks_tokens_first: "ts \<noteq> [] \<Longrightarrow> \<exists>r. tasks_tokens ts = LBrace # r"
  by (induction ts rule: tasks_tokens.induct) (simp_all add: task_tokens_def)

lemma parse_value_array:
  "parse_value (LBracket # tasks_tokens ts @ [RBracket]) = Some (JArr (map task_json ts), [])"
proof (cases "ts = []")
  case True
  then show ?thesis by simp
next
  case False
  then obtain r where r: "tasks_tokens ts = LBrace # r"
    using tasks_tokens_first by blast
  have "parse_elements (tasks_tokens ts @ [RBracket]) = Some (map task_json ts, [])"
    using False by (rule parse_elements_tasks_tokens)
  with r show ?thesis by simp
qed

lemma JSON_parse_stringify: "JSON_parse (JSON_stringify ts) = Inr (JArr (map task_json ts))"
  by (simp add: JSON_parse_def lex_JSON_stringify parse_value_array del: parse_value.simps)

subsection \<open>The double nearest to a sum\<close>

declare excess_bits.simps [simp del]

lemma round_double_exact: "\<bar>n\<bar> \<le> 2 ^ 53 \<Longrightarrow> round_double n = n"
  by (simp add: round_double_def)

lemma round_double_tie: "round_double (2 ^ 53 + 1) = 2 ^ 53"
  by (simp add: round_double_def Let_def excess_bits.simps)

subsection \<open>Hydrating from a serialized task array\<close>

lemma task_of_json_task_json:
  "\<bar>task_id t\<bar> \<le> 2 ^ 53 \<Longrightarrow> task_of_json (task_json t) = Some t"
proof -
  assume b: "\<bar>task_id t\<bar> \<le> 2 ^ 53"
  have "\<bar>(of_int (task_id t) :: rat)\<bar> \<le> of_int (2 ^ 53)"
    using b by (simp only: of_int_abs [symmetric] of_int_le_iff)
  then have "\<bar>(of_int (task_id t) :: rat)\<bar> \<le> 2 ^ 53" by simp
  then show ?thesis
    by (simp add: task_of_json_def task_json_def get_num_def get_str_def)
qed

lemma saved_tasks_task_json:
  "\<forall>t \<in> set ts. \<bar>task_id t\<bar> \<le> 2 ^ 53 \<Longrightarrow> saved_tasks (map task_json ts) = Done ts"
proof (induction ts)
  case Nil
  show ?case by simp
next
  case (Cons t ts)
  have "task_json t \<noteq> JNull" by (simp add: task_json_def)
  with Cons show ?case by (simp add: task_of_json_task_json)
qed

lemma initialize_stringify:
  "\<forall>t \<in> set ts. \<bar>task_id t\<bar> \<le> 2 ^ 53 \<Longrightarrow>
   initialize (p\<lparr>storage := Some (JSON_stringify ts)\<rparr>) =
     Done (p\<lparr>storage := Some (JSON_stringify ts), tasks := ts,
            nextId := round_double (maxId ts + 1)\<rparr>)"
  by (simp add: initialize_def getItem_text_def JSON_parse_stringify falsy_def
      saved_tasks_task_json)

subsection \<open>The counter and the ids\<close>

lemma maxId_foldl:
  "foldl (\<lambda>mx task. max mx (task_id task)) a ts = Max (insert a (task_id ` set ts))"
proof (induction ts arbitrary: a)
  case Nil
  show ?case by simp
next
  case (Cons t ts)
  have "Max (insert (max a (task_id t)) (task_id ` set ts)) =
        Max (insert a (insert (task_id t) (task_id ` set ts)))"
    by (cases "set ts = {}") (simp_all add: max.assoc)
  with Cons show ?case by simp
qed

lemma maxId_Max: "maxId ts = Max (insert 0 (task_id ` set ts))"
  by (simp add: maxId_def maxId_foldl)


lemma maxId_nonneg: "0 \<le> maxId ts"
  by (simp add: maxId_Max)


lemma maxId_less: "0 < b \<Longrightarrow> \<forall>t \<in> set ts. task_id t < b \<Longrightarrow> maxId ts < b"
  by (simp add: maxId_Max)













subsection \<open>Filtering and repeated adding\<close>

lemma filter_distinct_split:
  assumes "distinct (map f xs)" and "f x = i" and "xs = as @ x # bs"
  shows "filter (\<lambda>t. f t \<noteq> i) xs = as @ bs"
proof -
  from assms have "\<forall>a \<in> set as. f a \<noteq> i" "\<forall>b \<in> set bs. f b \<noteq> i"
    by (auto simp: image_iff)
  then have "filter (\<lambda>t. f t \<noteq> i) as = as" "filter (\<lambda>t. f t \<noteq> i) bs = bs"
    by (simp_all add: filter_id_conv)
  with assms show ?thesis by simp
qed

lemma length_filter_split:
  "length xs = length (filter (\<lambda>t. f t \<noteq> i) xs) + length (filter (\<lambda>t. f t = i) xs)"
  by (induction xs) simp_all

lemma add_titles_shape:
  "length (tasks (add_titles ss p)) = length (tasks p) + length ss
   \<and> map title (tasks (add_titles ss p)) = map title (tasks p) @ ss"
  unfolding add_titles_def
proof (induction ss arbitrary: p rule: rev_induct)
  case Nil
  show ?case by simp
next
  case (snoc s ss)
  then show ?case
    by (simp add: addTask_def setNewTask_def Let_def)
qed

lemma add_titles_general:
  "0 \<le> nextId p \<Longrightarrow> nextId p + int (length ss) \<le> 2 ^ 53 \<Longrightarrow>
   tasks (add_titles ss p) =
     tasks p @ map (\<lambda>(k, s). \<lparr>task_id = nextId p + int k, title = s, description = []\<rparr>)
                   (enumerate 0 ss)
   \<and> nextId (add_titles ss p) = nextId p + int (length ss)"
  unfolding add_titles_def
proof (induction ss arbitrary: p rule: rev_induct)
  case Nil
  show ?case by simp
next
  case (snoc s ss)
  let ?q = "foldl (\<lambda>q s. addTask (setNewTask s q)) p ss"
  from snoc.prems have b: "nextId p + int (length ss) \<le> 2 ^ 53" by simp
  note ih = snoc.IH [OF snoc.prems(1) b]
  from ih have n: "nextId ?q = nextId p + int (length ss)" by simp
  with snoc.prems have "\<bar>nextId ?q + 1\<bar> \<le> 2 ^ 53" by simp
  then have r: "round_double (nextId ?q + 1) = nextId ?q + 1"
    by (rule round_double_exact)
  from ih r n show ?case
    by (simp add: addTask_def setNewTask_def Let_def enumerate_append_eq)
qed

subsection \<open>Evaluating the parser and the hydration effect\<close>

lemmas json_eval =
  ustr_def is_ws_def is_digit_def digits_val_def escape_char_def scale10_def
  lex_sign_def lex_frac_def lex_exp_def lex_number_def JSON_parse_def

lemmas hydrate_eval =
  initialize_def getItem_text_def Home_def falsy_def task_of_json_def get_num_def get_str_def
  maxId_def round_double_def parse_members.simps parse_elements.simps

lemma JSON_parse_error: "JSON_parse s = Inl e \<Longrightarrow> e = SyntaxError"
  by (auto simp: JSON_parse_def split: option.splits prod.splits list.splits)

lemma initialize_falsy:
  "JSON_parse s = Inr v \<Longrightarrow> falsy v \<Longrightarrow>
   initialize (p\<lparr>storage := Some s\<rparr>) = Done (p\<lparr>storage := Some s, tasks := [], nextId := 1\<rparr>)"
  by (simp add: initialize_def getItem_text_def maxId_def round_double_def)

text \<open>
  The page hydrated from a stored task with the id \<open>2 ^ 53\<close>.
\<close>

lemma stringify_2_53:
  \<open>JSON_stringify [\<lparr>task_id = 9007199254740992, title = ustr ''x'', description = []\<rparr>] =
     ustr ''[{"id":9007199254740992,"title":"x","description":""}]''\<close>
  by (simp add: JSON_stringify_def stringify_task_def Number_toString_def digits.simps
      QuoteJSONString_def quote_unit_def is_leading_surrogate_def is_trailing_surrogate_def
      ustr_def)

lemma hydrate_2_53:
  \<open>initialize (Home (Some (ustr ''[{"id":9007199254740992,"title":"x","description":""}]''))) =
     Done \<lparr>tasks = [\<lparr>task_id = 9007199254740992, title = ustr ''x'', description = []\<rparr>],
           newTask = [], nextId = 9007199254740992,
           storage = Some (ustr ''[{"id":9007199254740992,"title":"x","description":""}]'')\<rparr>\<close>
proof -
  have "initialize
          ((Home None)\<lparr>storage := Some (JSON_stringify
             [\<lparr>task_id = 9007199254740992, title = ustr ''x'', description = []\<rparr>])\<rparr>) =
        Done ((Home None)\<lparr>storage := Some (JSON_stringify
                 [\<lparr>task_id = 9007199254740992, title = ustr ''x'', description = []\<rparr>]),
               tasks := [\<lparr>task_id = 9007199254740992, title = ustr ''x'', description = []\<rparr>],
               nextId := round_double
                 (maxId [\<lparr>task_id = 9007199254740992, title = ustr ''x'', description = []\<rparr>] + 1)\<rparr>)"
    by (rule initialize_stringify) simp
  moreover have "round_double
      (maxId [\<lparr>task_id = 9007199254740992, title = ustr ''x'', description = []\<rparr>] + 1) =
      9007199254740992"
    using round_double_tie by (simp add: maxId_def)
  ultimately show ?thesis
    by (simp add: stringify_2_53 Home_def)
qed

section \<open>The claims\<close>

text \<open>
  C1. The claim: for every stored text that is not valid JSON, \<^verbatim>\<open>initialize()\<close> absorbs the
  read failure and yields the empty collection, as if the slot were absent, with no error.
  The code does not do that. \<^verbatim>\<open>JSON.parse\<close> throws a SyntaxError and the hydration effect has
  no handler around it, so the effect ends with that exception before either state setter
  runs. What holds, for every text that \<^verbatim>\<open>JSON.parse\<close> rejects: the only error it raises is a
  SyntaxError, and the effect throws that SyntaxError instead of producing a page state.
\<close>

theorem initialize_malformed_throws:
  "JSON_parse s = Inl e \<Longrightarrow>
   e = SyntaxError \<and> initialize (p\<lparr>storage := Some s\<rparr>) = Threw SyntaxError"
  by (auto simp: initialize_def getItem_text_def dest: JSON_parse_error)

theorem initialize_malformed_throws_witness:
  \<open>JSON_parse (ustr ''[{"id":1,'') = Inl SyntaxError
   \<and> initialize ((Home None)\<lparr>storage := Some (ustr ''[{"id":1,'')\<rparr>) = Threw SyntaxError\<close>
proof -
  have h: \<open>JSON_parse (ustr ''[{"id":1,'') = Inl SyntaxError\<close>
    by (simp add: json_eval parse_members.simps parse_elements.simps)
  show ?thesis
    using h initialize_malformed_throws [OF h, of "Home None"] by simp
qed

text \<open>
  The claim as stated fails at the stored text \<^verbatim>\<open>{\<close>: it is rejected by \<^verbatim>\<open>JSON.parse\<close>, and the
  effect does not end in the state with an empty collection and counter 1.
\<close>

theorem initialize_malformed_counterexample:
  \<open>JSON_parse (ustr ''{'') = Inl SyntaxError
   \<and> initialize (Home (Some (ustr ''{''))) \<noteq>
       Done \<lparr>tasks = [], newTask = [], nextId = 1, storage = Some (ustr ''{'')\<rparr>\<close>
  by (simp add: json_eval parse_members.simps initialize_def getItem_text_def Home_def)

text \<open>
  C2. The claim: persisting any collection and initializing from the persisted text gives the
  same collection back (ids, titles and descriptions, in order) and a counter equal to
  max(ids)+1; a persisted singleton with id 5 gives counter 6 and the next add gets id 6.
  The collection part holds for every collection whose ids are integers of magnitude up to
  \<open>2 ^ 53\<close>: these are written in decimal digits and read back as the same Numbers. The
  counter is what \<^verbatim>\<open>reduce\<close> computes from the seed 0, plus 1 in doubles: the double nearest
  to one more than the largest of 0 and the ids. That is max(ids)+1 when one id is not
  negative and every id is below \<open>2 ^ 53\<close>. It is 1 for the empty collection and for a
  collection whose ids are all negative, and when the largest id is \<open>2 ^ 53\<close> it is
  \<open>2 ^ 53\<close>, that id itself. The scenario with the id 5 holds as stated.
\<close>

theorem persist_then_initialize:
  \<open>((\<forall>t \<in> set ts. \<bar>task_id t\<bar> \<le> 2 ^ 53) \<longrightarrow>
      initialize (p\<lparr>storage := Some (JSON_stringify ts)\<rparr>) =
        Done (p\<lparr>storage := Some (JSON_stringify ts), tasks := ts,
               nextId := round_double (Max (insert 0 (task_id ` set ts)) + 1)\<rparr>))
   \<and> ((\<forall>t \<in> set ts. - (2 ^ 53) \<le> task_id t \<and> task_id t < 2 ^ 53) \<longrightarrow>
      initialize (p\<lparr>storage := Some (JSON_stringify ts)\<rparr>) =
        Done (p\<lparr>storage := Some (JSON_stringify ts), tasks := ts,
               nextId := Max (insert 0 (task_id ` set ts)) + 1\<rparr>))
   \<and> ((\<forall>t \<in> set ts. - (2 ^ 53) \<le> task_id t \<and> task_id t < 2 ^ 53)
        \<and> (\<exists>t \<in> set ts. 0 \<le> task_id t) \<longrightarrow>
      initialize (p\<lparr>storage := Some (JSON_stringify ts)\<rparr>) =
        Done (p\<lparr>storage := Some (JSON_stringify ts), tasks := ts,
               nextId := Max (task_id ` set ts) + 1\<rparr>))
   \<and> JSON_stringify [\<lparr>task_id = 5, title = ustr ''x'', description = []\<rparr>] =
       ustr ''[{"id":5,"title":"x","description":""}]''
   \<and> initialize (Home (Some (ustr ''[{"id":5,"title":"x","description":""}]''))) =
       Done \<lparr>tasks = [\<lparr>task_id = 5, title = ustr ''x'', description = []\<rparr>], newTask = [],
             nextId = 6, storage = Some (ustr ''[{"id":5,"title":"x","description":""}]'')\<rparr>
   \<and> tasks (addTask \<lparr>tasks = [\<lparr>task_id = 5, title = ustr ''x'', description = []\<rparr>],
                      newTask = [], nextId = 6,
                      storage = Some (ustr ''[{"id":5,"title":"x","description":""}]'')\<rparr>) =
       [\<lparr>task_id = 5, title = ustr ''x'', description = []\<rparr>,
        \<lparr>task_id = 6, title = [], description = []\<rparr>]\<close>
proof -
  have 1: "initialize (p\<lparr>storage := Some (JSON_stringify ts)\<rparr>) =
     Done (p\<lparr>storage := Some (JSON_stringify ts), tasks := ts,
            nextId := round_double (Max (insert 0 (task_id ` set ts)) + 1)\<rparr>)"
    if "\<forall>t \<in> set ts. \<bar>task_id t\<bar> \<le> 2 ^ 53" for p ts
    using initialize_stringify [OF that] by (simp only: maxId_Max)
  have 2: "initialize (p\<lparr>storage := Some (JSON_stringify ts)\<rparr>) =
     Done (p\<lparr>storage := Some (JSON_stringify ts), tasks := ts,
            nextId := Max (insert 0 (task_id ` set ts)) + 1\<rparr>)"
    if b: "\<forall>t \<in> set ts. - (2 ^ 53) \<le> task_id t \<and> task_id t < 2 ^ 53" for p ts
  proof -
    from b have a: "\<forall>t \<in> set ts. \<bar>task_id t\<bar> \<le> 2 ^ 53" by fastforce
    from b have "\<forall>t \<in> set ts. task_id t < 2 ^ 53" by simp
    then have "maxId ts < 2 ^ 53" by (simp add: maxId_less)
    with maxId_nonneg [of ts] have "\<bar>maxId ts + 1\<bar> \<le> 2 ^ 53" by simp
    then have "round_double (maxId ts + 1) = maxId ts + 1" by (rule round_double_exact)
    then show ?thesis
      using 1 [OF a] by (simp only: maxId_Max)
  qed
  have m: "Max (insert 0 (task_id ` set ts)) = Max (task_id ` set ts)"
    if "\<exists>t \<in> set ts. 0 \<le> task_id t"
  proof -
    from that obtain t where t: "t \<in> set ts" "0 \<le> task_id t" by blast
    then have ne: "task_id ` set ts \<noteq> {}" by auto
    have "task_id t \<le> Max (task_id ` set ts)" using t by simp
    with t have "0 \<le> Max (task_id ` set ts)" by linarith
    with ne show ?thesis by (simp add: max_def)
  qed
  have 3: "initialize (p\<lparr>storage := Some (JSON_stringify ts)\<rparr>) =
          Done (p\<lparr>storage := Some (JSON_stringify ts), tasks := ts,
                 nextId := Max (task_id ` set ts) + 1\<rparr>)"
    if "\<forall>t \<in> set ts. - (2 ^ 53) \<le> task_id t \<and> task_id t < 2 ^ 53"
      and "\<exists>t \<in> set ts. 0 \<le> task_id t"
    using 2 [OF that(1)] m [OF that(2)] by simp
  have 4: \<open>JSON_stringify [\<lparr>task_id = 5, title = ustr ''x'', description = []\<rparr>] =
       ustr ''[{"id":5,"title":"x","description":""}]''\<close>
    by (simp add: JSON_stringify_def stringify_task_def Number_toString_def digits.simps
        QuoteJSONString_def quote_unit_def is_leading_surrogate_def is_trailing_surrogate_def
        ustr_def)
  have 5: \<open>initialize (Home (Some (ustr ''[{"id":5,"title":"x","description":""}]''))) =
       Done \<lparr>tasks = [\<lparr>task_id = 5, title = ustr ''x'', description = []\<rparr>], newTask = [],
             nextId = 6, storage = Some (ustr ''[{"id":5,"title":"x","description":""}]'')\<rparr>\<close>
    using 2 [where p = "Home None" and ts = "[\<lparr>task_id = 5, title = ustr ''x'', description = []\<rparr>]"]
    by (simp add: 4 Home_def)
  have 6: \<open>tasks (addTask \<lparr>tasks = [\<lparr>task_id = 5, title = ustr ''x'', description = []\<rparr>],
                      newTask = [], nextId = 6,
                      storage = Some (ustr ''[{"id":5,"title":"x","description":""}]'')\<rparr>) =
       [\<lparr>task_id = 5, title = ustr ''x'', description = []\<rparr>,
        \<lparr>task_id = 6, title = [], description = []\<rparr>]\<close>
    by (simp add: addTask_def Let_def)
  from 1 [of ts p] 2 [of ts p] 3 4 5 6 show ?thesis by blast
qed

theorem persist_then_initialize_witness:
  \<open>- (2 ^ 53) \<le> (3 :: int) \<and> (3 :: int) < 2 ^ 53
   \<and> - (2 ^ 53) \<le> (8 :: int) \<and> (8 :: int) < 2 ^ 53
   \<and> initialize (Home (Some (JSON_stringify
         [\<lparr>task_id = 3, title = ustr ''a'', description = []\<rparr>,
          \<lparr>task_id = 8, title = ustr ''b'', description = []\<rparr>]))) =
       Done \<lparr>tasks = [\<lparr>task_id = 3, title = ustr ''a'', description = []\<rparr>,
                      \<lparr>task_id = 8, title = ustr ''b'', description = []\<rparr>],
             newTask = [], nextId = 9,
             storage = Some (JSON_stringify
               [\<lparr>task_id = 3, title = ustr ''a'', description = []\<rparr>,
                \<lparr>task_id = 8, title = ustr ''b'', description = []\<rparr>])\<rparr>
   \<and> Max (task_id ` set [\<lparr>task_id = 3, title = ustr ''a'', description = []\<rparr>,
                          \<lparr>task_id = 8, title = ustr ''b'', description = []\<rparr>]) + 1 = 9\<close>
proof -
  let ?ts = "[\<lparr>task_id = 3, title = ustr ''a'', description = []\<rparr>,
             \<lparr>task_id = 8, title = ustr ''b'', description = []\<rparr>]"
  have b: "\<forall>t \<in> set ?ts. - (2 ^ 53) \<le> task_id t \<and> task_id t < 2 ^ 53" by simp
  have h: "\<exists>t \<in> set ?ts. 0 \<le> task_id t" by simp
  from persist_then_initialize [where p = "Home None" and ts = ?ts] b h
  have "initialize ((Home None)\<lparr>storage := Some (JSON_stringify ?ts)\<rparr>) =
        Done ((Home None)\<lparr>storage := Some (JSON_stringify ?ts), tasks := ?ts,
               nextId := Max (task_id ` set ?ts) + 1\<rparr>)"
    by blast
  then show ?thesis
    by (simp add: Home_def)
qed

text \<open>
  The claim as stated fails for the collection with the single id \<open>-5\<close>: it is read back
  unchanged, the counter is 1, and max(ids)+1 is \<open>-4\<close>. It also fails for the collection
  with the single id \<open>2 ^ 53\<close>: it is read back unchanged and the counter is \<open>2 ^ 53\<close>, not
  \<open>2 ^ 53 + 1\<close>.
\<close>

theorem persist_counter_counterexample:
  \<open>initialize (Home (Some (ustr ''[{"id":-5,"title":"x","description":""}]''))) =
     Done \<lparr>tasks = [\<lparr>task_id = - 5, title = ustr ''x'', description = []\<rparr>], newTask = [],
           nextId = 1, storage = Some (ustr ''[{"id":-5,"title":"x","description":""}]'')\<rparr>
   \<and> JSON_stringify [\<lparr>task_id = - 5, title = ustr ''x'', description = []\<rparr>] =
       ustr ''[{"id":-5,"title":"x","description":""}]''
   \<and> (1 :: int) \<noteq> Max (task_id ` set [\<lparr>task_id = - 5, title = ustr ''x'', description = []\<rparr>]) + 1
   \<and> initialize (Home (Some (ustr ''[{"id":9007199254740992,"title":"x","description":""}]''))) =
     Done \<lparr>tasks = [\<lparr>task_id = 9007199254740992, title = ustr ''x'', description = []\<rparr>],
           newTask = [], nextId = 9007199254740992,
           storage = Some (ustr ''[{"id":9007199254740992,"title":"x","description":""}]'')\<rparr>
   \<and> JSON_stringify [\<lparr>task_id = 9007199254740992, title = ustr ''x'', description = []\<rparr>] =
       ustr ''[{"id":9007199254740992,"title":"x","description":""}]''
   \<and> (9007199254740992 :: int) \<noteq>
       Max (task_id ` set [\<lparr>task_id = 9007199254740992, title = ustr ''x'', description = []\<rparr>]) + 1\<close>
proof -
  have 3: \<open>JSON_stringify [\<lparr>task_id = - 5, title = ustr ''x'', description = []\<rparr>] =
       ustr ''[{"id":-5,"title":"x","description":""}]''\<close>
    by (simp add: JSON_stringify_def stringify_task_def Number_toString_def digits.simps
        QuoteJSONString_def quote_unit_def is_leading_surrogate_def is_trailing_surrogate_def
        ustr_def)
  have 4: \<open>initialize (Home (Some (ustr ''[{"id":-5,"title":"x","description":""}]''))) =
       Done \<lparr>tasks = [\<lparr>task_id = - 5, title = ustr ''x'', description = []\<rparr>], newTask = [],
             nextId = 1, storage = Some (ustr ''[{"id":-5,"title":"x","description":""}]'')\<rparr>\<close>
    by (simp add: json_eval hydrate_eval)
  from 3 4 hydrate_2_53 stringify_2_53 show ?thesis by simp
qed

text \<open>
  C3. The claim: for every state and every title, \<^verbatim>\<open>addTask\<close> appends exactly one task
  with the current counter as id, the title and an empty description, increments the counter
  by one, persists the whole new collection, clears the input and leaves the earlier tasks
  unchanged and in order. All of it holds for every page state and every title typed into
  the input, except the increment: the counter is set to \<^verbatim>\<open>nextId+1\<close>, an addition of
  doubles. The new counter is the double nearest to the old one plus 1; it is the old one
  plus 1 as long as that has magnitude at most \<open>2 ^ 53\<close>, and at \<open>2 ^ 53\<close> the counter stays
  where it is.
\<close>

theorem addTask_appends:
  "tasks (addTask (setNewTask s p)) =
     tasks p @ [\<lparr>task_id = nextId p, title = s, description = []\<rparr>]
   \<and> nextId (addTask (setNewTask s p)) = round_double (nextId p + 1)
   \<and> (\<bar>nextId p + 1\<bar> \<le> 2 ^ 53 \<longrightarrow> nextId (addTask (setNewTask s p)) = nextId p + 1)
   \<and> storage (addTask (setNewTask s p)) =
       Some (JSON_stringify (tasks p @ [\<lparr>task_id = nextId p, title = s, description = []\<rparr>]))
   \<and> newTask (addTask (setNewTask s p)) = []
   \<and> length (tasks (addTask (setNewTask s p))) = length (tasks p) + 1
   \<and> take (length (tasks p)) (tasks (addTask (setNewTask s p))) = tasks p"
  by (simp add: addTask_def setNewTask_def Let_def round_double_exact)

theorem addTask_appends_witness:
  "\<bar>nextId (Home None) + 1\<bar> \<le> 2 ^ 53
   \<and> nextId (addTask (setNewTask (ustr ''Buy milk'') (Home None))) = 2
   \<and> tasks (addTask (setNewTask (ustr ''Buy milk'') (Home None))) =
       [\<lparr>task_id = 1, title = ustr ''Buy milk'', description = []\<rparr>]"
proof -
  have h: "\<bar>nextId (Home None) + 1\<bar> \<le> 2 ^ 53" by (simp add: Home_def)
  show ?thesis
    using h addTask_appends [of "ustr ''Buy milk''" "Home None"] by (simp add: Home_def round_double_def)
qed

text \<open>
  The claim as stated fails in the state that hydration leaves for a stored task with the id
  \<open>2 ^ 53\<close>: the counter is \<open>2 ^ 53\<close> before \<^verbatim>\<open>addTask\<close> and after it.
\<close>

theorem addTask_counter_counterexample:
  \<open>initialize (Home (Some (ustr ''[{"id":9007199254740992,"title":"x","description":""}]''))) =
     Done \<lparr>tasks = [\<lparr>task_id = 9007199254740992, title = ustr ''x'', description = []\<rparr>],
           newTask = [], nextId = 9007199254740992,
           storage = Some (ustr ''[{"id":9007199254740992,"title":"x","description":""}]'')\<rparr>
   \<and> nextId (addTask (setNewTask (ustr ''y'')
        \<lparr>tasks = [\<lparr>task_id = 9007199254740992, title = ustr ''x'', description = []\<rparr>],
         newTask = [], nextId = 9007199254740992,
         storage = Some (ustr ''[{"id":9007199254740992,"title":"x","description":""}]'')\<rparr>)) =
       9007199254740992
   \<and> nextId (addTask (setNewTask (ustr ''y'')
        \<lparr>tasks = [\<lparr>task_id = 9007199254740992, title = ustr ''x'', description = []\<rparr>],
         newTask = [], nextId = 9007199254740992,
         storage = Some (ustr ''[{"id":9007199254740992,"title":"x","description":""}]'')\<rparr>)) \<noteq>
       nextId
        \<lparr>tasks = [\<lparr>task_id = 9007199254740992, title = ustr ''x'', description = []\<rparr>],
         newTask = [], nextId = 9007199254740992,
         storage = Some (ustr ''[{"id":9007199254740992,"title":"x","description":""}]'')\<rparr> + 1\<close>
  using hydrate_2_53 round_double_tie
  by (simp add: addTask_def setNewTask_def Let_def)

text \<open>
  C4. The claim: in a collection that contains a task with the given id, \<^verbatim>\<open>handleDelete\<close>
  removes exactly one element and keeps the order of the others; in a collection without the
  id it changes nothing; the result is persisted. The code keeps exactly the tasks whose id
  differs from the given one, in their order, so it removes every task that carries the id:
  the collection gets shorter by the number of such tasks. This is exactly one task when the
  ids of the collection are pairwise different, which nothing in the code enforces for a
  collection read from storage. An id that does not occur leaves the collection as it is.
  In every case the resulting collection is written to the storage item, and neither the
  counter nor the input changes.
\<close>

theorem handleDelete_removes_matches:
  "tasks (handleDelete i p) = filter (\<lambda>task. task_id task \<noteq> i) (tasks p)
   \<and> length (tasks p) =
       length (tasks (handleDelete i p)) + length (filter (\<lambda>task. task_id task = i) (tasks p))
   \<and> (distinct (map task_id (tasks p)) \<and> i \<in> task_id ` set (tasks p) \<longrightarrow>
      (\<exists>xs t ys. tasks p = xs @ t # ys \<and> task_id t = i
          \<and> tasks (handleDelete i p) = xs @ ys))
   \<and> (i \<notin> task_id ` set (tasks p) \<longrightarrow> tasks (handleDelete i p) = tasks p)
   \<and> subseq (tasks (handleDelete i p)) (tasks p)
   \<and> set (tasks (handleDelete i p)) = {t \<in> set (tasks p). task_id t \<noteq> i}
   \<and> storage (handleDelete i p) = Some (JSON_stringify (tasks (handleDelete i p)))
   \<and> nextId (handleDelete i p) = nextId p
   \<and> newTask (handleDelete i p) = newTask p"
proof -
  have a: "\<exists>xs t ys. tasks p = xs @ t # ys \<and> task_id t = i \<and> tasks (handleDelete i p) = xs @ ys"
    if d: "distinct (map task_id (tasks p))" and "i \<in> task_id ` set (tasks p)"
  proof -
    from that obtain t where "t \<in> set (tasks p)" "task_id t = i" by auto
    then obtain xs ys where s: "tasks p = xs @ t # ys"
      by (auto simp: in_set_conv_decomp)
    have "tasks (handleDelete i p) = xs @ ys"
      using filter_distinct_split [OF d \<open>task_id t = i\<close> s]
      by (simp add: handleDelete_def Let_def)
    with s \<open>task_id t = i\<close> show ?thesis by blast
  qed
  have b: "tasks (handleDelete i p) = tasks p" if "i \<notin> task_id ` set (tasks p)"
    using that by (auto simp: handleDelete_def Let_def filter_id_conv)
  have c: "subseq (tasks (handleDelete i p)) (tasks p)"
    by (simp add: handleDelete_def Let_def)
  have e: "set (tasks (handleDelete i p)) = {t \<in> set (tasks p). task_id t \<noteq> i}"
    by (simp add: handleDelete_def Let_def)
  have f: "tasks (handleDelete i p) = filter (\<lambda>task. task_id task \<noteq> i) (tasks p)"
    by (simp add: handleDelete_def Let_def)
  have g: "length (tasks p) =
       length (tasks (handleDelete i p)) + length (filter (\<lambda>task. task_id task = i) (tasks p))"
    unfolding f by (rule length_filter_split)
  show ?thesis
    using a b c e f g by (simp add: handleDelete_def Let_def)
qed

theorem handleDelete_removes_matches_witness:
  "distinct (map task_id (tasks (add_titles [ustr ''Buy milk'', ustr ''Walk dog''] (Home None))))
   \<and> 1 \<in> task_id ` set (tasks (add_titles [ustr ''Buy milk'', ustr ''Walk dog''] (Home None)))
   \<and> 7 \<notin> task_id ` set (tasks (add_titles [ustr ''Buy milk'', ustr ''Walk dog''] (Home None)))
   \<and> tasks (add_titles [ustr ''Buy milk'', ustr ''Walk dog''] (Home None)) =
       [\<lparr>task_id = 1, title = ustr ''Buy milk'', description = []\<rparr>,
        \<lparr>task_id = 2, title = ustr ''Walk dog'', description = []\<rparr>]
   \<and> tasks (handleDelete 1 (add_titles [ustr ''Buy milk'', ustr ''Walk dog''] (Home None))) =
       [\<lparr>task_id = 2, title = ustr ''Walk dog'', description = []\<rparr>]
   \<and> tasks (handleDelete 7 (add_titles [ustr ''Buy milk'', ustr ''Walk dog''] (Home None))) =
       tasks (add_titles [ustr ''Buy milk'', ustr ''Walk dog''] (Home None))
   \<and> storage (handleDelete 1 (add_titles [ustr ''Buy milk'', ustr ''Walk dog''] (Home None))) =
       Some (JSON_stringify [\<lparr>task_id = 2, title = ustr ''Walk dog'', description = []\<rparr>])"
proof -
  let ?p = "add_titles [ustr ''Buy milk'', ustr ''Walk dog''] (Home None)"
  have ts: "tasks ?p = [\<lparr>task_id = 1, title = ustr ''Buy milk'', description = []\<rparr>,
                       \<lparr>task_id = 2, title = ustr ''Walk dog'', description = []\<rparr>]"
    by (simp add: add_titles_def setNewTask_def addTask_def Let_def Home_def round_double_def)
  have h: "distinct (map task_id (tasks ?p))"
    by (simp add: ts)
  have i1: "1 \<in> task_id ` set (tasks ?p)" and i7: "7 \<notin> task_id ` set (tasks ?p)"
    by (simp_all add: ts)
  have d: "tasks (handleDelete 1 ?p) = [\<lparr>task_id = 2, title = ustr ''Walk dog'', description = []\<rparr>]"
    using handleDelete_removes_matches [of 1 ?p] by (simp add: ts)
  from handleDelete_removes_matches [of 7 ?p] i7 have n: "tasks (handleDelete 7 ?p) = tasks ?p"
    by blast
  from handleDelete_removes_matches [of 1 ?p] d
  have s: "storage (handleDelete 1 ?p) =
           Some (JSON_stringify [\<lparr>task_id = 2, title = ustr ''Walk dog'', description = []\<rparr>])"
    by simp
  from h i1 i7 ts d n s show ?thesis by simp
qed

text \<open>
  The claim as stated fails for the collection that hydration reads from a stored text in
  which two tasks carry the id 1: \<^verbatim>\<open>handleDelete(1)\<close> removes both of them, two elements of
  three.
\<close>

theorem handleDelete_repeated_id_counterexample:
  \<open>initialize (Home (Some (ustr
      ''[{"id":1,"title":"a","description":""},{"id":1,"title":"b","description":""},{"id":2,"title":"c","description":""}]''))) =
     Done \<lparr>tasks = [\<lparr>task_id = 1, title = ustr ''a'', description = []\<rparr>,
                    \<lparr>task_id = 1, title = ustr ''b'', description = []\<rparr>,
                    \<lparr>task_id = 2, title = ustr ''c'', description = []\<rparr>],
           newTask = [], nextId = 3,
           storage = Some (ustr
      ''[{"id":1,"title":"a","description":""},{"id":1,"title":"b","description":""},{"id":2,"title":"c","description":""}]'')\<rparr>
   \<and> tasks (handleDelete 1
        \<lparr>tasks = [\<lparr>task_id = 1, title = ustr ''a'', description = []\<rparr>,
                  \<lparr>task_id = 1, title = ustr ''b'', description = []\<rparr>,
                  \<lparr>task_id = 2, title = ustr ''c'', description = []\<rparr>],
         newTask = [], nextId = 3,
         storage = Some (ustr
      ''[{"id":1,"title":"a","description":""},{"id":1,"title":"b","description":""},{"id":2,"title":"c","description":""}]'')\<rparr>) =
       [\<lparr>task_id = 2, title = ustr ''c'', description = []\<rparr>]
   \<and> length [\<lparr>task_id = 1, title = ustr ''a'', description = []\<rparr>,
              \<lparr>task_id = 1, title = ustr ''b'', description = []\<rparr>,
              \<lparr>task_id = 2, title = ustr ''c'', description = []\<rparr>] =
       length [\<lparr>task_id = 2, title = ustr ''c'', description = []\<rparr>] + 2\<close>
proof -
  let ?ts = "[\<lparr>task_id = 1, title = ustr ''a'', description = []\<rparr>,
              \<lparr>task_id = 1, title = ustr ''b'', description = []\<rparr>,
              \<lparr>task_id = 2, title = ustr ''c'', description = []\<rparr>]"
  have s: \<open>JSON_stringify ?ts = ustr
      ''[{"id":1,"title":"a","description":""},{"id":1,"title":"b","description":""},{"id":2,"title":"c","description":""}]''\<close>
    by (simp add: JSON_stringify_def stringify_task_def Number_toString_def digits.simps
        QuoteJSONString_def quote_unit_def is_leading_surrogate_def is_trailing_surrogate_def
        ustr_def)
  have "initialize ((Home None)\<lparr>storage := Some (JSON_stringify ?ts)\<rparr>) =
        Done ((Home None)\<lparr>storage := Some (JSON_stringify ?ts), tasks := ?ts,
               nextId := round_double (maxId ?ts + 1)\<rparr>)"
    by (rule initialize_stringify) simp
  then have i: \<open>initialize (Home (Some (ustr
      ''[{"id":1,"title":"a","description":""},{"id":1,"title":"b","description":""},{"id":2,"title":"c","description":""}]''))) =
     Done \<lparr>tasks = ?ts, newTask = [], nextId = 3,
           storage = Some (ustr
      ''[{"id":1,"title":"a","description":""},{"id":1,"title":"b","description":""},{"id":2,"title":"c","description":""}]'')\<rparr>\<close>
    by (simp add: s Home_def maxId_def round_double_def)
  show ?thesis
    using i by (simp add: handleDelete_def Let_def)
qed

text \<open>
  C5. Start from the page hydrated from an absent storage item (empty collection,
  counter 1) and add one task for each title of a list. The collection then has as many
  tasks as there were calls and their titles are the given ones in order, whether or not
  the titles differ from each other. For a list of fewer than \<open>2 ^ 53\<close> titles the ids are
  \<open>1, 2, \<dots>\<close> up to the number of calls, strictly increasing, and the counter is one more
  than that number. (A JavaScript array has fewer than \<open>2 ^ 32\<close> elements, so every run of
  the page is within this bound.)
\<close>

theorem adds_from_empty:
  "initialize (Home None) = Done (Home None)
   \<and> length (tasks (add_titles ss (Home None))) = length ss
   \<and> map title (tasks (add_titles ss (Home None))) = ss
   \<and> (int (length ss) < 2 ^ 53 \<longrightarrow>
        map task_id (tasks (add_titles ss (Home None))) = map int [1..<Suc (length ss)]
      \<and> sorted_wrt (<) (map task_id (tasks (add_titles ss (Home None))))
      \<and> nextId (add_titles ss (Home None)) = int (length ss) + 1)"
proof -
  have n: "JSON_parse (ustr ''null'') = Inr JNull"
    by (simp add: json_eval)
  have 1: "initialize (Home None) = Done (Home None)"
    by (simp add: initialize_def getItem_text_def n falsy_def maxId_def Home_def round_double_def)
  have 2: "length (tasks (add_titles ss (Home None))) = length ss"
    and 5: "map title (tasks (add_titles ss (Home None))) = ss"
    using add_titles_shape [of ss "Home None"] by (simp_all add: Home_def)
  have 346: "map task_id (tasks (add_titles ss (Home None))) = map int [1..<Suc (length ss)]
      \<and> sorted_wrt (<) (map task_id (tasks (add_titles ss (Home None))))
      \<and> nextId (add_titles ss (Home None)) = int (length ss) + 1"
    if b: "int (length ss) < 2 ^ 53"
  proof -
    from b have b': "nextId (Home None) + int (length ss) \<le> 2 ^ 53"
      by (simp add: Home_def)
    have z: "0 \<le> nextId (Home None)" by (simp add: Home_def)
    have t: "tasks (add_titles ss (Home None)) =
             map (\<lambda>(k, s). \<lparr>task_id = 1 + int k, title = s, description = []\<rparr>) (enumerate 0 ss)"
      and c: "nextId (add_titles ss (Home None)) = int (length ss) + 1"
      using add_titles_general [OF z b'] by (simp_all add: Home_def)
    have ids: "map task_id (tasks (add_titles ss (Home None))) =
               map (\<lambda>k. 1 + int k) [0..<length ss]"
    proof -
      have "map (\<lambda>x. 1 + int (fst x)) (zip ks ss) = map (\<lambda>k. 1 + int k) ks"
        if "length ks = length ss" for ks :: "nat list"
        using that by (induction ks ss rule: list_induct2) simp_all
      then show ?thesis
        unfolding t by (simp add: enumerate_eq_zip split_def comp_def)
    qed
    have up: "map (\<lambda>k. 1 + int k) [0..<n] = map int [1..<Suc n]" for n
      by (induction n) simp_all
    have 3: "map task_id (tasks (add_titles ss (Home None))) = map int [1..<Suc (length ss)]"
      by (simp only: ids up)
    have 4: "sorted_wrt (<) (map task_id (tasks (add_titles ss (Home None))))"
      unfolding 3 by (simp add: sorted_wrt_map del: upt_Suc)
    from 3 4 c show ?thesis by simp
  qed
  from 1 2 5 346 show ?thesis by blast
qed

theorem adds_from_empty_witness:
  "int (length [ustr ''Buy milk'', ustr ''Walk dog'']) < 2 ^ 53
   \<and> map task_id (tasks (add_titles [ustr ''Buy milk'', ustr ''Walk dog''] (Home None))) = [1, 2]
   \<and> nextId (add_titles [ustr ''Buy milk'', ustr ''Walk dog''] (Home None)) = 3"
proof -
  have h: "int (length [ustr ''Buy milk'', ustr ''Walk dog'']) < 2 ^ 53" by simp
  from adds_from_empty [of "[ustr ''Buy milk'', ustr ''Walk dog'']"] h
  have "map task_id (tasks (add_titles [ustr ''Buy milk'', ustr ''Walk dog''] (Home None))) =
          map int [1..<Suc (length [ustr ''Buy milk'', ustr ''Walk dog''])]
        \<and> nextId (add_titles [ustr ''Buy milk'', ustr ''Walk dog''] (Home None)) =
          int (length [ustr ''Buy milk'', ustr ''Walk dog'']) + 1"
    by blast
  with h show ?thesis by (simp add: upt_rec)
qed

text \<open>
  C6. When the storage item is absent, or holds the serialization of the empty collection
  (the text \<^verbatim>\<open>[]\<close>), hydration yields the empty collection and counter 1. (An item that
  holds the empty string is not valid JSON; that is the case of C1.)
\<close>

theorem initialize_absent:
  \<open>initialize (p\<lparr>storage := None\<rparr>) = Done (p\<lparr>storage := None, tasks := [], nextId := 1\<rparr>)
   \<and> initialize (p\<lparr>storage := Some (JSON_stringify [])\<rparr>) =
       Done (p\<lparr>storage := Some (JSON_stringify []), tasks := [], nextId := 1\<rparr>)
   \<and> JSON_stringify [] = ustr ''[]''
   \<and> initialize (Home None) = Done (Home None)\<close>
proof -
  have n: "JSON_parse (ustr ''null'') = Inr JNull"
    by (simp add: json_eval)
  have 1: "initialize (p\<lparr>storage := None\<rparr>) = Done (p\<lparr>storage := None, tasks := [], nextId := 1\<rparr>)"
    for p
    by (simp add: initialize_def getItem_text_def n falsy_def maxId_def round_double_def)
  have 2: "initialize (p\<lparr>storage := Some (JSON_stringify [])\<rparr>) =
       Done (p\<lparr>storage := Some (JSON_stringify []), tasks := [], nextId := 1\<rparr>)"
    by (simp add: initialize_stringify maxId_def round_double_def)
  have 3: "JSON_stringify [] = ustr ''[]''"
    by (simp add: JSON_stringify_def ustr_def)
  have 4: "initialize (Home None) = Done (Home None)"
    using 1 [of "Home None"] by (simp add: Home_def)
  from 1 2 3 4 show ?thesis by simp
qed

text \<open>
  C7. After \<^verbatim>\<open>addTask\<close> and after \<^verbatim>\<open>handleDelete\<close> the storage item holds the serialization
  of the task collection now in memory, whatever it held before.
\<close>

theorem mutations_mirrored:
  "mirrored (addTask p) \<and> mirrored (handleDelete i p)"
  by (simp add: mirrored_def addTask_def handleDelete_def Let_def)

text \<open>
  C8. The claim: \<^verbatim>\<open>addTask\<close> with an empty input is not rejected; it adds a task with the
  empty title and behaves as for any other title, including appending, counter increment
  and persistence. It is not rejected: it appends a task with the empty title, clears the
  input and persists the collection, and the result differs from the result for any other
  title only in the title of the appended task and, with it, in the persisted text. The
  counter is the same as for any other title, but that is not always an increment: it is
  set to \<^verbatim>\<open>nextId+1\<close> in doubles, which is one more as long as that has magnitude at most
  \<open>2 ^ 53\<close> and is the old counter at \<open>2 ^ 53\<close>.
\<close>

theorem addTask_empty_title:
  "addTask (setNewTask [] p) =
     p\<lparr>tasks := tasks p @ [\<lparr>task_id = nextId p, title = [], description = []\<rparr>],
       newTask := [],
       nextId := round_double (nextId p + 1),
       storage := Some (JSON_stringify
                          (tasks p @ [\<lparr>task_id = nextId p, title = [], description = []\<rparr>]))\<rparr>
   \<and> (\<bar>nextId p + 1\<bar> \<le> 2 ^ 53 \<longrightarrow> nextId (addTask (setNewTask [] p)) = nextId p + 1)
   \<and> mirrored (addTask (setNewTask [] p))
   \<and> nextId (addTask (setNewTask [] p)) = nextId (addTask (setNewTask s p))
   \<and> newTask (addTask (setNewTask [] p)) = newTask (addTask (setNewTask s p))
   \<and> butlast (tasks (addTask (setNewTask [] p))) = butlast (tasks (addTask (setNewTask s p)))
   \<and> (last (tasks (addTask (setNewTask s p))))\<lparr>title := []\<rparr> =
       last (tasks (addTask (setNewTask [] p)))"
  by (simp add: addTask_def setNewTask_def mirrored_def Let_def round_double_exact)

theorem addTask_empty_title_witness:
  "\<bar>nextId (Home None) + 1\<bar> \<le> 2 ^ 53
   \<and> nextId (addTask (setNewTask [] (Home None))) = 2
   \<and> tasks (addTask (setNewTask [] (Home None))) =
       [\<lparr>task_id = 1, title = [], description = []\<rparr>]"
proof -
  have h: "\<bar>nextId (Home None) + 1\<bar> \<le> 2 ^ 53" by (simp add: Home_def)
  show ?thesis
    using h addTask_empty_title [of "Home None" "[]"] by (simp add: Home_def round_double_def)
qed

text \<open>
  The claim as stated fails in the state that hydration leaves for a stored task with the id
  \<open>2 ^ 53\<close>: pressing Add with an empty input appends a second task with the id \<open>2 ^ 53\<close>
  and leaves the counter at \<open>2 ^ 53\<close>.
\<close>

theorem addTask_empty_title_counterexample:
  \<open>initialize (Home (Some (ustr ''[{"id":9007199254740992,"title":"x","description":""}]''))) =
     Done \<lparr>tasks = [\<lparr>task_id = 9007199254740992, title = ustr ''x'', description = []\<rparr>],
           newTask = [], nextId = 9007199254740992,
           storage = Some (ustr ''[{"id":9007199254740992,"title":"x","description":""}]'')\<rparr>
   \<and> tasks (addTask (setNewTask []
        \<lparr>tasks = [\<lparr>task_id = 9007199254740992, title = ustr ''x'', description = []\<rparr>],
         newTask = [], nextId = 9007199254740992,
         storage = Some (ustr ''[{"id":9007199254740992,"title":"x","description":""}]'')\<rparr>)) =
       [\<lparr>task_id = 9007199254740992, title = ustr ''x'', description = []\<rparr>,
        \<lparr>task_id = 9007199254740992, title = [], description = []\<rparr>]
   \<and> nextId (addTask (setNewTask []
        \<lparr>tasks = [\<lparr>task_id = 9007199254740992, title = ustr ''x'', description = []\<rparr>],
         newTask = [], nextId = 9007199254740992,
         storage = Some (ustr ''[{"id":9007199254740992,"title":"x","description":""}]'')\<rparr>)) =
       9007199254740992\<close>
  using hydrate_2_53 round_double_tie
  by (simp add: addTask_def setNewTask_def Let_def)




text \<open>
  C10. When the storage item holds one of the texts \<^verbatim>\<open>null\<close>, \<^verbatim>\<open>0\<close>, \<^verbatim>\<open>false\<close> or \<^verbatim>\<open>""\<close>,
  which are valid JSON for falsy values, hydration yields the empty collection and
  counter 1, exactly as for an absent item.
\<close>

theorem initialize_falsy_texts:
  \<open>initialize (p\<lparr>storage := Some (ustr ''null'')\<rparr>) =
     Done (p\<lparr>storage := Some (ustr ''null''), tasks := [], nextId := 1\<rparr>)
   \<and> initialize (p\<lparr>storage := Some (ustr ''0'')\<rparr>) =
     Done (p\<lparr>storage := Some (ustr ''0''), tasks := [], nextId := 1\<rparr>)
   \<and> initialize (p\<lparr>storage := Some (ustr ''false'')\<rparr>) =
     Done (p\<lparr>storage := Some (ustr ''false''), tasks := [], nextId := 1\<rparr>)
   \<and> initialize (p\<lparr>storage := Some (ustr ''""'')\<rparr>) =
     Done (p\<lparr>storage := Some (ustr ''""''), tasks := [], nextId := 1\<rparr>)
   \<and> initialize (p\<lparr>storage := None\<rparr>) = Done (p\<lparr>storage := None, tasks := [], nextId := 1\<rparr>)\<close>
proof -
  have n: "JSON_parse (ustr ''null'') = Inr JNull"
    and z: "JSON_parse (ustr ''0'') = Inr (JNum 0)"
    and f: "JSON_parse (ustr ''false'') = Inr (JBool False)"
    and e: \<open>JSON_parse (ustr ''""'') = Inr (JStr [])\<close>
    by (simp_all add: json_eval)
  have a: "initialize (p\<lparr>storage := None\<rparr>) = Done (p\<lparr>storage := None, tasks := [], nextId := 1\<rparr>)"
    by (simp add: initialize_def getItem_text_def n falsy_def maxId_def round_double_def)
  show ?thesis
    using initialize_falsy [OF n, of p] initialize_falsy [OF z, of p]
      initialize_falsy [OF f, of p] initialize_falsy [OF e, of p] a
    by (simp add: falsy_def)
qed

end
